theory Spec2Isabelle
  imports Main "HOL-Library.Word"
begin

section \<open>The simple debugger of NEMU (nemu/src/monitor/sdb/sdb.c)\<close>

text \<open>
  A shallow embedding of \<^verbatim>\<open>sdb.c\<close>: the command handlers, the command table, the
  main loop and the batch-mode flag. C strings are \<open>string\<close> (the characters before
  the terminating NUL), a \<^verbatim>\<open>char *\<close> that may be \<^verbatim>\<open>NULL\<close> is a \<open>string option\<close>,
  \<^verbatim>\<open>int\<close> results are \<open>int\<close>, fixed-width unsigned values are words.
\<close>

subsection \<open>C library: character classes, strtok, atoi, printf conversions\<close>

text \<open>\<^verbatim>\<open>isspace\<close> in the C locale: space, \<^verbatim>\<open>\t \n \v \f \r\<close>.\<close>

definition isspace :: "char \<Rightarrow> bool" where
  "isspace c = (c \<in> set [CHR 0x20, CHR 0x09, CHR 0x0A, CHR 0x0B, CHR 0x0C, CHR 0x0D])"

definition isdigit :: "char \<Rightarrow> bool" where
  "isdigit c = (c \<in> set ''0123456789'')"

definition digit_val :: "char \<Rightarrow> nat" where
  "digit_val c = of_char c - 48"

text \<open>
  \<^verbatim>\<open>strspn(s, accept)\<close> and \<^verbatim>\<open>strcspn(s, reject)\<close>: the length of the longest prefix
  of \<open>s\<close> made of characters in (respectively not in) the second string.
\<close>

definition strspn :: "string \<Rightarrow> string \<Rightarrow> nat" where
  "strspn s accept = length (takeWhile (\<lambda>c. c \<in> set accept) s)"

definition strcspn :: "string \<Rightarrow> string \<Rightarrow> nat" where
  "strcspn s reject = length (takeWhile (\<lambda>c. c \<notin> set reject) s)"

text \<open>
  \<^verbatim>\<open>strtok_r\<close> on the characters from the scan position to the end of the buffer.
  It skips leading delimiters; when nothing is left it returns \<^verbatim>\<open>NULL\<close>; otherwise the
  token runs to the next delimiter, which is overwritten by NUL, and the saved position
  is the character after it (or the end of the buffer when the token ends there).
  The result is the token and the characters from the new saved position on.
\<close>

definition strtok_r :: "string \<Rightarrow> string \<Rightarrow> string option \<times> string" where
  "strtok_r s delim =
     (let s1 = drop (strspn s delim) s in
      if s1 = [] then (None, s1)
      else
        let n = strcspn s1 delim; tok = take n s1; r = drop n s1 in
        if r = [] then (Some tok, r) else (Some tok, tl r))"

text \<open>
  What \<^verbatim>\<open>strtok_r\<close> leaves of the buffer it was started on, read as a string from the
  start of the buffer: the characters before the NUL that replaced the delimiter after
  the token; the whole buffer when there is no token, or when the token runs to the end.
\<close>

definition strtok_cut :: "string \<Rightarrow> string \<Rightarrow> string" where
  "strtok_cut s delim =
     (let k = strspn s delim; s1 = drop k s in
      if s1 = [] then s else take (k + strcspn s1 delim) s)"

text \<open>
  \<^verbatim>\<open>atoi(s)\<close> is \<^verbatim>\<open>(int) strtol(s, NULL, 10)\<close>: leading \<^verbatim>\<open>isspace\<close> characters are
  skipped, one optional sign is read, then the longest run of decimal digits; no digits
  give 0. \<^verbatim>\<open>strtol\<close> clamps to the range of a 64-bit \<^verbatim>\<open>long\<close>, the conversion to
  \<^verbatim>\<open>int\<close> keeps the low 32 bits, read as two's complement.
\<close>

definition LONG_MAX :: int where
  "LONG_MAX = 2 ^ 63 - 1"

definition LONG_MIN :: int where
  "LONG_MIN = - (2 ^ 63)"

definition strtol10 :: "string \<Rightarrow> int" where
  "strtol10 s =
     (let s1 = dropWhile isspace s;
          neg = (s1 \<noteq> [] \<and> hd s1 = CHR ''-'');
          s2 = (if s1 \<noteq> [] \<and> (hd s1 = CHR ''-'' \<or> hd s1 = CHR ''+'') then tl s1 else s1);
          v = foldl (\<lambda>a c. 10 * a + int (digit_val c)) 0 (takeWhile isdigit s2);
          r = (if neg then - v else v)
      in max LONG_MIN (min LONG_MAX r))"

definition atoi :: "string \<Rightarrow> int" where
  "atoi s = sint (word_of_int (strtol10 s) :: 32 word)"

text \<open>The conversions of \<^verbatim>\<open>printf\<close> that the file uses.\<close>

definition digit_char :: "nat \<Rightarrow> char" where
  "digit_char d = ''0123456789abcdef'' ! d"

function fmt_u :: "nat \<Rightarrow> string" where
  "fmt_u n = (if n < 10 then [digit_char n] else fmt_u (n div 10) @ [digit_char (n mod 10)])"
  by pat_completeness auto
termination
  by (relation "measure id") auto

function fmt_x :: "nat \<Rightarrow> string" where
  "fmt_x n = (if n < 16 then [digit_char n] else fmt_x (n div 16) @ [digit_char (n mod 16)])"
  by pat_completeness auto
termination
  by (relation "measure id") auto

text \<open>\<^verbatim>\<open>%d\<close>.\<close>

definition fmt_d :: "int \<Rightarrow> string" where
  "fmt_d i = (if i < 0 then ''-'' @ fmt_u (nat (- i)) else fmt_u (nat i))"

text \<open>\<^verbatim>\<open>%0Nx\<close>: lower-case hexadecimal, padded with zeros to at least \<open>N\<close> digits.\<close>

definition fmt_0x :: "nat \<Rightarrow> nat \<Rightarrow> string" where
  "fmt_0x w n = replicate (w - length (fmt_x n)) (CHR ''0'') @ fmt_x n"

text \<open>\<^verbatim>\<open>%p\<close> as glibc prints a pointer.\<close>

definition fmt_p :: "64 word \<Rightarrow> string" where
  "fmt_p p = (if p = 0 then ''(nil)'' else ''0x'' @ fmt_x (unat p))"

definition nl :: string where
  "nl = [CHR 0x0A]"

definition quote :: string where
  "quote = [CHR 0x27]"

subsection \<open>The emulator state the debugger reads and writes\<close>

text \<open>
  \<^verbatim>\<open>nemu_state\<close> and \<^verbatim>\<open>cpu\<close> are globals of other modules; their declarations are in
  headers, not in \<^verbatim>\<open>sdb.c\<close>. The record has the fields \<^verbatim>\<open>sdb.c\<close> uses: the run state
  (compared with \<^verbatim>\<open>NEMU_RUNNING\<close>, set to \<^verbatim>\<open>NEMU_QUIT\<close>), \<^verbatim>\<open>halt_pc\<close> and \<^verbatim>\<open>cpu.pc\<close>
  (printed by \<^verbatim>\<open>%08x\<close>) and \<^verbatim>\<open>halt_ret\<close> (an unsigned 32-bit value, printed by \<^verbatim>\<open>%d\<close>,
  so read as signed). Everything else of the emulator (registers, memory, devices) is
  the component \<open>others\<close> of an arbitrary type.
\<close>

datatype nemu_run_state = NEMU_RUNNING | NEMU_STOP | NEMU_END | NEMU_ABORT | NEMU_QUIT

record NEMUState =
  state :: nemu_run_state
  halt_pc :: "32 word"
  halt_ret :: "32 word"

record 'm machine =
  nemu_state :: NEMUState
  cpu_pc :: "32 word"
  others :: 'm

text \<open>
  The functions \<^verbatim>\<open>sdb.c\<close> calls and does not define are parameters: what
  \<^verbatim>\<open>cpu_exec(n)\<close> does to the emulator, the host address \<^verbatim>\<open>guest_to_host\<close> returns,
  the byte a host address holds, the two initialisers, the device hook and whether
  \<^verbatim>\<open>CONFIG_DEVICE\<close> is defined.
\<close>

record 'm externals =
  cpu_exec :: "64 word \<Rightarrow> 'm machine \<Rightarrow> 'm machine"
  guest_to_host :: "32 word \<Rightarrow> 64 word"
  host_load8 :: "'m machine \<Rightarrow> 64 word \<Rightarrow> 8 word"
  init_regex :: "'m machine \<Rightarrow> 'm machine"
  init_wp_pool :: "'m machine \<Rightarrow> 'm machine"
  sdl_clear_event_queue :: "'m machine \<Rightarrow> 'm machine"
  CONFIG_DEVICE :: bool

subsection \<open>Handlers as table entries, and the trace of what the debugger does\<close>

text \<open>A function pointer of the command table is the identity of a handler.\<close>

datatype handler_ptr = Cmd_help | Cmd_c | Cmd_q | Cmd_si | Cmd_info | Cmd_x

text \<open>
  Everything observable is appended to a trace: each \<^verbatim>\<open>printf\<close> with its formatted
  text, each call of an external function with its arguments, the one-byte read through
  the host pointer. \<open>Call h args\<close> is a ghost event that records that handler \<open>h\<close> was
  entered with the parameter \<open>args\<close>.
\<close>

datatype event =
    Printf string
  | Readline string
  | Add_history string
  | Ev_cpu_exec "64 word"
  | Ev_isa_reg_display
  | Ev_guest_to_host "32 word"
  | Ev_load8 "64 word"
  | Ev_sdl_clear_event_queue
  | Ev_init_regex
  | Ev_init_wp_pool
  | Call handler_ptr "string option"

text \<open>
  The state of the process as far as \<^verbatim>\<open>sdb.c\<close> is concerned: the emulator, the static
  \<^verbatim>\<open>is_batch_mode\<close>, the static \<^verbatim>\<open>line_read\<close> of \<^verbatim>\<open>rl_gets\<close>, the saved position of
  \<^verbatim>\<open>strtok\<close> (the characters from it to the end of the buffer) and the trace.
  The handlers that call \<^verbatim>\<open>strtok(NULL, " ")\<close> are reached from the main loop only,
  after its \<^verbatim>\<open>strtok(str, " ")\<close> on the line, so the saved position is that of the
  line being dispatched; in batch mode only \<^verbatim>\<open>cmd_c\<close> runs, which does not call
  \<^verbatim>\<open>strtok\<close>. \<open>line_read\<close> is \<open>None\<close> for \<^verbatim>\<open>NULL\<close>, and otherwise the string the pointer
  points to; the main loop runs \<^verbatim>\<open>strtok\<close> on that very buffer, so the NUL written after
  the command word ends the string there. The \<^verbatim>\<open>free\<close> of the previous line is not part
  of the state.
\<close>

record 'm sdb =
  machine :: "'m machine"
  is_batch_mode :: bool
  line_read :: "string option"
  strtok_save :: string
  trace :: "event list"

text \<open>The state at program start: \<^verbatim>\<open>static int is_batch_mode = false\<close>.\<close>

definition sdb_initial :: "'m machine \<Rightarrow> 'm sdb" where
  "sdb_initial m =
     \<lparr>machine = m, is_batch_mode = False, line_read = None, strtok_save = [], trace = []\<rparr>"

definition emit :: "event \<Rightarrow> 'm sdb \<Rightarrow> 'm sdb" where
  "emit e s = s\<lparr>trace := trace s @ [e]\<rparr>"

definition printf :: "string \<Rightarrow> 'm sdb \<Rightarrow> 'm sdb" where
  "printf txt s = emit (Printf txt) s"

text \<open>
  \<^verbatim>\<open>strtok(str, delim)\<close>: with a string it starts there, with \<^verbatim>\<open>NULL\<close> at the saved
  position.
\<close>

definition strtok :: "string option \<Rightarrow> string \<Rightarrow> 'm sdb \<Rightarrow> string option \<times> 'm sdb" where
  "strtok str delim s =
     (let (tok, save) = strtok_r (case str of Some b \<Rightarrow> b | None \<Rightarrow> strtok_save s) delim
      in (tok, s\<lparr>strtok_save := save\<rparr>))"

definition do_cpu_exec :: "'m externals \<Rightarrow> 64 word \<Rightarrow> 'm sdb \<Rightarrow> 'm sdb" where
  "do_cpu_exec ext n s = (emit (Ev_cpu_exec n) s)\<lparr>machine := cpu_exec ext n (machine s)\<rparr>"

subsection \<open>The command handlers\<close>

definition cmd_c :: "'m externals \<Rightarrow> string option \<Rightarrow> 'm sdb \<Rightarrow> int \<times> 'm sdb" where
  "cmd_c ext args s = (0, do_cpu_exec ext (- 1) s)"

definition cmd_q :: "'m externals \<Rightarrow> string option \<Rightarrow> 'm sdb \<Rightarrow> int \<times> 'm sdb" where
  "cmd_q ext args s =
     (let s1 = s\<lparr>machine := (machine s)\<lparr>nemu_state := (nemu_state (machine s))\<lparr>state := NEMU_QUIT\<rparr>\<rparr>\<rparr>;
          ret = halt_ret (nemu_state (machine s1));
          s2 = (if ret \<noteq> 0
                then printf (''NEMU has exited with code '' @ fmt_d (sint ret) @ ''.'' @ nl) s1
                else printf (''NEMU has exited successfully.'' @ nl) s1);
          s3 = printf (''Bye!'' @ nl) s2
      in (- 1, s3))"

definition cmd_si :: "'m externals \<Rightarrow> string option \<Rightarrow> 'm sdb \<Rightarrow> int \<times> 'm sdb" where
  "cmd_si ext args s =
     (let (arg, s1) = strtok None '' '' s in
      case arg of
        Some a \<Rightarrow>
          (let n = atoi a in
           if n \<le> 0 then (0, printf (''Invalid step count: '' @ a @ nl) s1)
           else (0, do_cpu_exec ext (word_of_int n) s1))
      | None \<Rightarrow> (0, do_cpu_exec ext (word_of_int 1) s1))"

definition cmd_info :: "'m externals \<Rightarrow> string option \<Rightarrow> 'm sdb \<Rightarrow> int \<times> 'm sdb" where
  "cmd_info ext args s =
     (let (arg, s1) = strtok None '' '' s in
      case arg of
        Some a \<Rightarrow>
          if a = ''r'' then (0, emit Ev_isa_reg_display s1)
          else if a = ''w'' then (0, printf (''(Watchpoints are not implemented yet.)'' @ nl) s1)
          else if a = ''c'' then
            (let m = machine s1;
                 s2 = printf (''NEMU state: ''
                        @ (if state (nemu_state m) = NEMU_RUNNING then ''RUNNING'' else ''HALTED'')
                        @ nl) s1;
                 s3 = printf (''Halt PC: 0x'' @ fmt_0x 8 (unat (halt_pc (nemu_state m))) @ nl) s2;
                 s4 = printf (''cpu PC: 0x'' @ fmt_0x 8 (unat (cpu_pc m)) @ nl) s3;
                 s5 = printf (''Halt return value: '' @ fmt_d (sint (halt_ret (nemu_state m))) @ nl) s4
             in (0, s5))
          else (0, printf (''Unknown argument '' @ quote @ a @ quote @ '' for ''
                           @ quote @ ''info'' @ quote @ '' command.'' @ nl) s1)
      | None \<Rightarrow>
          (let s2 = printf (''Usage: info <r|w|c>'' @ nl) s1;
               s3 = printf (''  r - print registers'' @ nl) s2;
               s4 = printf (''  w - print watchpoints (not implemented yet)'' @ nl) s3;
               s5 = printf (''  c - print NEMU state and halt information'' @ nl) s4
           in (0, s5)))"

definition cmd_x :: "'m externals \<Rightarrow> string option \<Rightarrow> 'm sdb \<Rightarrow> int \<times> 'm sdb" where
  "cmd_x ext args s =
     (let (arg_N, s1) = strtok None '' '' s;
          (arg_EXPR, s2) = strtok None '' '' s1 in
      case (arg_N, arg_EXPR) of
        (Some n, Some e) \<Rightarrow>
          (let s3 = printf (''N = '' @ n @ '', EXPR = '' @ e @ nl) s2;
               addr = guest_to_host ext 0x80000000;
               s4 = emit (Ev_guest_to_host 0x80000000) s3;
               v = host_load8 ext (machine s4) addr;
               s5 = emit (Ev_load8 addr) s4;
               s6 = printf (''Byte at address '' @ fmt_p addr @ '': 0x'' @ fmt_0x 2 (unat v) @ nl) s5
           in (0, s6))
      | _ \<Rightarrow> (0, printf (''Usage: x <N> <EXPR>'' @ nl) s2))"

subsection \<open>The command table and \<^verbatim>\<open>help\<close>\<close>

record cmd =
  name :: string
  description :: string
  handler :: handler_ptr

definition cmd_table :: "cmd list" where
  "cmd_table =
     [\<lparr>name = ''help'', description = ''Display information about all supported commands'',
       handler = Cmd_help\<rparr>,
      \<lparr>name = ''c'', description = ''Continue the execution of the program'', handler = Cmd_c\<rparr>,
      \<lparr>name = ''q'', description = ''Exit NEMU'', handler = Cmd_q\<rparr>,
      \<lparr>name = ''si'', description = ''Execute N step(s)'', handler = Cmd_si\<rparr>,
      \<lparr>name = ''info'', description = ''Print program state'', handler = Cmd_info\<rparr>,
      \<lparr>name = ''x'', description = ''Scan memory'', handler = Cmd_x\<rparr>]"

text \<open>The line \<^verbatim>\<open>printf("%s - %s\n", name, description)\<close> of one table entry.\<close>

definition help_line :: "cmd \<Rightarrow> string" where
  "help_line c = name c @ '' - '' @ description c @ nl"

definition unknown_command :: "string \<Rightarrow> string" where
  "unknown_command w = ''Unknown command '' @ quote @ w @ quote @ nl"

text \<open>The first loop of \<^verbatim>\<open>cmd_help\<close>, over the entries from index \<open>i\<close> on.\<close>

fun help_all :: "cmd list \<Rightarrow> 'm sdb \<Rightarrow> 'm sdb" where
  "help_all [] s = s"
| "help_all (c # cs) s = help_all cs (printf (help_line c) s)"

text \<open>
  The second loop: it returns at the first entry whose name compares equal
  (\<^verbatim>\<open>strcmp(arg, name) == 0\<close>); after the loop comes the diagnostic.
\<close>

fun help_one :: "string \<Rightarrow> cmd list \<Rightarrow> 'm sdb \<Rightarrow> 'm sdb" where
  "help_one arg [] s = printf (unknown_command arg) s"
| "help_one arg (c # cs) s =
     (if arg = name c then printf (help_line c) s else help_one arg cs s)"

definition cmd_help :: "'m externals \<Rightarrow> string option \<Rightarrow> 'm sdb \<Rightarrow> int \<times> 'm sdb" where
  "cmd_help ext args s =
     (let (arg, s1) = strtok None '' '' s in
      case arg of
        None \<Rightarrow> (0, help_all cmd_table s1)
      | Some a \<Rightarrow> (0, help_one a cmd_table s1))"

text \<open>Calling through a function pointer of the table.\<close>

definition call :: "'m externals \<Rightarrow> handler_ptr \<Rightarrow> string option \<Rightarrow> 'm sdb \<Rightarrow> int \<times> 'm sdb" where
  "call ext h args s =
     (case h of
        Cmd_help \<Rightarrow> cmd_help ext args s
      | Cmd_c \<Rightarrow> cmd_c ext args s
      | Cmd_q \<Rightarrow> cmd_q ext args s
      | Cmd_si \<Rightarrow> cmd_si ext args s
      | Cmd_info \<Rightarrow> cmd_info ext args s
      | Cmd_x \<Rightarrow> cmd_x ext args s)"

text \<open>A call of a handler, with its ghost event.\<close>

definition invoke :: "'m externals \<Rightarrow> handler_ptr \<Rightarrow> string option \<Rightarrow> 'm sdb \<Rightarrow> int \<times> 'm sdb" where
  "invoke ext h args s = call ext h args (emit (Call h args) s)"

subsection \<open>The batch flag, the line source and the main loop\<close>

definition sdb_set_batch_mode :: "'m sdb \<Rightarrow> 'm sdb" where
  "sdb_set_batch_mode s = s\<lparr>is_batch_mode := True\<rparr>"

text \<open>
  The line source is the list of lines the operator will still enter; after the last one
  \<^verbatim>\<open>readline\<close> returns \<^verbatim>\<open>NULL\<close> (end of input). The prompt is
  \<^verbatim>\<open>BEGIN(49, 32)"(nemu) "CLOSE\<close>.
\<close>

definition prompt :: string where
  "prompt = [CHR 0x01, CHR 0x1B] @ ''[49;32m'' @ [CHR 0x02] @ ''(nemu) ''
            @ [CHR 0x01, CHR 0x1B] @ ''[0m'' @ [CHR 0x02]"

definition readline :: "string list \<Rightarrow> string option \<times> string list" where
  "readline input = (case input of [] \<Rightarrow> (None, []) | l # ls \<Rightarrow> (Some l, ls))"

definition rl_gets :: "string list \<Rightarrow> 'm sdb \<Rightarrow> string option \<times> string list \<times> 'm sdb" where
  "rl_gets input s =
     (let s1 = (if line_read s \<noteq> None then s\<lparr>line_read := None\<rparr> else s);
          (l, rest) = readline input;
          s2 = emit (Readline prompt) (s1\<lparr>line_read := l\<rparr>)
      in case l of
           Some ln \<Rightarrow> (if ln \<noteq> [] then (l, rest, emit (Add_history ln) s2) else (l, rest, s2))
         | None \<Rightarrow> (l, rest, s2))"

text \<open>What \<^verbatim>\<open>rl_gets\<close> does to the state when \<^verbatim>\<open>readline\<close> returns the line \<open>str\<close>.\<close>

definition fetched :: "string \<Rightarrow> 'm sdb \<Rightarrow> 'm sdb" where
  "fetched str s =
     (let s1 = emit (Readline prompt) (s\<lparr>line_read := Some str\<rparr>)
      in if str \<noteq> [] then emit (Add_history str) s1 else s1)"

text \<open>
  The inner loop of \<^verbatim>\<open>sdb_mainloop\<close> over the table entries from index \<open>i\<close> on. The
  result is whether \<^verbatim>\<open>sdb_mainloop\<close> returns (the handler's result was negative), and
  the state. Reaching the end of the table is \<^verbatim>\<open>i == NR_CMD\<close>.
\<close>

fun lookup_loop ::
  "'m externals \<Rightarrow> string \<Rightarrow> string option \<Rightarrow> cmd list \<Rightarrow> 'm sdb \<Rightarrow> bool \<times> 'm sdb" where
  "lookup_loop ext w args [] s = (False, printf (unknown_command w) s)"
| "lookup_loop ext w args (c # cs) s =
     (if w = name c then
        (let (r, s1) = invoke ext (handler c) args s in
         if r < 0 then (True, s1) else (False, s1))
      else lookup_loop ext w args cs s)"

definition do_sdl_clear_event_queue :: "'m externals \<Rightarrow> 'm sdb \<Rightarrow> 'm sdb" where
  "do_sdl_clear_event_queue ext s =
     (emit Ev_sdl_clear_event_queue s)\<lparr>machine := sdl_clear_event_queue ext (machine s)\<rparr>"

text \<open>
  The pointer arithmetic on one line \<open>str\<close> whose command word is \<open>w\<close>: \<open>str_end\<close>,
  \<open>cmd\<close> and \<open>args\<close> as offsets from \<open>str\<close>.
\<close>

definition args_of :: "string \<Rightarrow> string \<Rightarrow> string option" where
  "args_of str w =
     (let str_end = length str;
          cmd_off = strspn str '' '';
          args_off = cmd_off + length w + 1
      in if args_off \<ge> str_end then None else Some (drop args_off str))"

text \<open>
  One iteration of the \<^verbatim>\<open>for\<close> loop on a line that was read: the result is whether
  \<^verbatim>\<open>sdb_mainloop\<close> returns. The line \<open>str\<close> is the buffer \<^verbatim>\<open>line_read\<close> points to, so
  after \<^verbatim>\<open>strtok(str, " ")\<close> the string at \<^verbatim>\<open>line_read\<close> is what \<^const>\<open>strtok_cut\<close>
  gives. (The later calls \<^verbatim>\<open>strtok(NULL, " ")\<close> of the handlers write behind that NUL.)
\<close>

definition sdb_line :: "'m externals \<Rightarrow> string \<Rightarrow> 'm sdb \<Rightarrow> bool \<times> 'm sdb" where
  "sdb_line ext str s =
     (let (w, s0) = strtok (Some str) '' '' s;
          s1 = s0\<lparr>line_read := Some (strtok_cut str '' '')\<rparr> in
      case w of
        None \<Rightarrow> (False, s1)
      | Some w \<Rightarrow>
          (let args = args_of str w;
               s2 = (if CONFIG_DEVICE ext then do_sdl_clear_event_queue ext s1 else s1)
           in lookup_loop ext w args cmd_table s2))"

text \<open>
  The \<^verbatim>\<open>for\<close> loop of \<^verbatim>\<open>sdb_mainloop\<close>. It ends when \<^verbatim>\<open>rl_gets\<close> returns \<^verbatim>\<open>NULL\<close> or
  when a handler's result is negative. The result is the lines that were never read, and
  the final state.
\<close>

function sdb_loop :: "'m externals \<Rightarrow> string list \<Rightarrow> 'm sdb \<Rightarrow> string list \<times> 'm sdb" where
  "sdb_loop ext input s =
     (case rl_gets input s of
        (None, rest, s1) \<Rightarrow> (rest, s1)
      | (Some str, rest, s1) \<Rightarrow>
          (let (ret, s2) = sdb_line ext str s1 in
           if ret then (rest, s2) else sdb_loop ext rest s2))"
  by pat_completeness auto
termination
  by (relation "measure (\<lambda>(ext, input, s). length input)")
     (auto simp: rl_gets_def readline_def Let_def split: list.splits if_splits)

definition sdb_mainloop :: "'m externals \<Rightarrow> string list \<Rightarrow> 'm sdb \<Rightarrow> string list \<times> 'm sdb" where
  "sdb_mainloop ext input s =
     (if is_batch_mode s then (input, snd (cmd_c ext None (emit (Call Cmd_c None) s)))
      else sdb_loop ext input s)"

definition init_sdb :: "'m externals \<Rightarrow> 'm sdb \<Rightarrow> 'm sdb" where
  "init_sdb ext s =
     (let s1 = (emit Ev_init_regex s)\<lparr>machine := init_regex ext (machine s)\<rparr>;
          s2 = (emit Ev_init_wp_pool s1)\<lparr>machine := init_wp_pool ext (machine s1)\<rparr>
      in s2)"

subsection \<open>Observations on traces\<close>

text \<open>The events a computation from \<open>s\<close> to \<open>s'\<close> appended.\<close>

definition new_events :: "'m sdb \<Rightarrow> 'm sdb \<Rightarrow> event list" where
  "new_events s s' = drop (length (trace s)) (trace s')"

fun is_call :: "event \<Rightarrow> bool" where
  "is_call (Call h a) = True"
| "is_call e = False"

fun is_readline :: "event \<Rightarrow> bool" where
  "is_readline (Readline p) = True"
| "is_readline e = False"

fun is_printf :: "event \<Rightarrow> bool" where
  "is_printf (Printf x) = True"
| "is_printf e = False"

text \<open>Events that touch guest memory: the address translation and the read.\<close>

fun is_memory_access :: "event \<Rightarrow> bool" where
  "is_memory_access (Ev_guest_to_host a) = True"
| "is_memory_access (Ev_load8 p) = True"
| "is_memory_access e = False"

fun is_cpu_exec :: "event \<Rightarrow> bool" where
  "is_cpu_exec (Ev_cpu_exec n) = True"
| "is_cpu_exec e = False"

text \<open>
  The words of a string separated by the characters that satisfy \<open>P\<close>; with
  \<^const>\<open>isspace\<close> these are the whitespace-separated words in the usual sense of C.
  This is not code of \<^verbatim>\<open>sdb.c\<close>: it is used to state what a line looks like.
\<close>

fun words_by :: "(char \<Rightarrow> bool) \<Rightarrow> string \<Rightarrow> string \<Rightarrow> string list" where
  "words_by P acc [] = (if acc = [] then [] else [acc])"
| "words_by P acc (c # cs) =
     (if P c then (if acc = [] then words_by P [] cs else acc # words_by P [] cs)
      else words_by P (acc @ [c]) cs)"

definition whitespace_words :: "string \<Rightarrow> string list" where
  "whitespace_words str = words_by isspace [] str"

text \<open>The words separated by the one delimiter the file gives \<^verbatim>\<open>strtok\<close>, the space.\<close>

definition space_words :: "string \<Rightarrow> string list" where
  "space_words str = words_by (\<lambda>c. c = CHR '' '') [] str"

text \<open>
  The state in which the inner loop of \<^verbatim>\<open>sdb_mainloop\<close> starts on the line \<open>str\<close>:
  after \<^verbatim>\<open>rl_gets\<close>, the first \<^verbatim>\<open>strtok\<close> and, under \<^verbatim>\<open>CONFIG_DEVICE\<close>, the device hook.
\<close>

definition before_lookup :: "'m externals \<Rightarrow> string \<Rightarrow> 'm sdb \<Rightarrow> 'm sdb" where
  "before_lookup ext str s =
     (let s0 = snd (strtok (Some str) '' '' (fetched str s));
          s1 = s0\<lparr>line_read := Some (strtok_cut str '' '')\<rparr>
      in if CONFIG_DEVICE ext then do_sdl_clear_event_queue ext s1 else s1)"

subsection \<open>A small instance of the external functions\<close>

text \<open>
  An emulator whose only state is the number of instructions it was asked to execute,
  to run the debugger on concrete lines.
\<close>

definition toy_ext :: "nat externals" where
  "toy_ext =
     \<lparr>cpu_exec = (\<lambda>n m. m\<lparr>others := others m + unat n\<rparr>),
      guest_to_host = (\<lambda>a. 0x7f0000000000 + ucast (a - 0x80000000)),
      host_load8 = (\<lambda>m p. 0x97),
      init_regex = (\<lambda>m. m),
      init_wp_pool = (\<lambda>m. m),
      sdl_clear_event_queue = (\<lambda>m. m),
      CONFIG_DEVICE = False\<rparr>"

definition toy_machine :: "32 word \<Rightarrow> nat machine" where
  "toy_machine ret =
     \<lparr>nemu_state = \<lparr>state = NEMU_STOP, halt_pc = 0x80000000, halt_ret = ret\<rparr>,
      cpu_pc = 0x80000000, others = 0\<rparr>"

text \<open>The state in which a handler finds the debugger when \<^verbatim>\<open>strtok\<close> has \<open>rest\<close> left.\<close>

definition toy_state :: "string \<Rightarrow> nat sdb" where
  "toy_state rest = (sdb_initial (toy_machine 0))\<lparr>strtok_save := rest\<rparr>"

text \<open>What \<^verbatim>\<open>cmd_q\<close> appends to the trace when the halt return code is \<open>ret\<close>.\<close>

definition quit_in :: "32 word \<Rightarrow> event list" where
  "quit_in ret =
     new_events (sdb_initial (toy_machine ret)) (snd (cmd_q toy_ext None (sdb_initial (toy_machine ret))))"

text \<open>The events of a handler: no ghost call, no fetch of a line.\<close>

definition quiet :: "event list \<Rightarrow> bool" where
  "quiet es = (\<forall>e \<in> set es. \<not> is_call e \<and> \<not> is_readline e)"

section \<open>Basic facts\<close>

declare sdb_loop.simps [simp del] fmt_u.simps [simp del] fmt_x.simps [simp del]

lemma emit_fields [simp]:
  "trace (emit e s) = trace s @ [e]"
  "machine (emit e s) = machine s"
  "is_batch_mode (emit e s) = is_batch_mode s"
  "line_read (emit e s) = line_read s"
  "strtok_save (emit e s) = strtok_save s"
  by (simp_all add: emit_def)

lemma printf_fields [simp]:
  "trace (printf x s) = trace s @ [Printf x]"
  "machine (printf x s) = machine s"
  "is_batch_mode (printf x s) = is_batch_mode s"
  "line_read (printf x s) = line_read s"
  "strtok_save (printf x s) = strtok_save s"
  by (simp_all add: printf_def)

lemma strtok_fields [simp]:
  "trace (snd (strtok b d s)) = trace s"
  "machine (snd (strtok b d s)) = machine s"
  "is_batch_mode (snd (strtok b d s)) = is_batch_mode s"
  "line_read (snd (strtok b d s)) = line_read s"
  by (simp_all add: strtok_def split: prod.splits)

lemma strtok_None_eq:
  "strtok None d s = (fst (strtok_r (strtok_save s) d), s\<lparr>strtok_save := snd (strtok_r (strtok_save s) d)\<rparr>)"
  by (simp add: strtok_def split: prod.splits)

lemma strtok_Some_eq:
  "strtok (Some b) d s = (fst (strtok_r b d), s\<lparr>strtok_save := snd (strtok_r b d)\<rparr>)"
  by (simp add: strtok_def split: prod.splits)

lemma do_cpu_exec_fields [simp]:
  "trace (do_cpu_exec ext n s) = trace s @ [Ev_cpu_exec n]"
  "machine (do_cpu_exec ext n s) = cpu_exec ext n (machine s)"
  "is_batch_mode (do_cpu_exec ext n s) = is_batch_mode s"
  "line_read (do_cpu_exec ext n s) = line_read s"
  "strtok_save (do_cpu_exec ext n s) = strtok_save s"
  by (simp_all add: do_cpu_exec_def)

lemma batch_help_all [simp]: "is_batch_mode (help_all cs s) = is_batch_mode s"
  by (induction cs arbitrary: s) simp_all

lemma batch_help_one [simp]: "is_batch_mode (help_one a cs s) = is_batch_mode s"
  by (induction cs arbitrary: s) simp_all

lemma batch_call [simp]: "is_batch_mode (snd (call ext h args s)) = is_batch_mode s"
  by (cases h)
     (simp_all add: call_def cmd_help_def cmd_c_def cmd_q_def cmd_si_def cmd_info_def cmd_x_def
        strtok_None_eq Let_def split: option.splits)

lemma batch_invoke [simp]: "is_batch_mode (snd (invoke ext h args s)) = is_batch_mode s"
  by (simp add: invoke_def)

lemma batch_lookup_loop [simp]:
  "is_batch_mode (snd (lookup_loop ext w args cs s)) = is_batch_mode s"
proof (induction cs)
  case Nil
  then show ?case by simp
next
  case (Cons c cs)
  obtain r s1 where inv: "invoke ext (handler c) args s = (r, s1)"
    by (cases "invoke ext (handler c) args s")
  have "is_batch_mode s1 = is_batch_mode s"
    using batch_invoke [of ext "handler c" args s] inv by simp
  with Cons inv show ?case
    by simp
qed

lemma batch_sdb_line [simp]: "is_batch_mode (snd (sdb_line ext str s)) = is_batch_mode s"
  by (simp add: sdb_line_def strtok_Some_eq do_sdl_clear_event_queue_def Let_def
      split: option.splits)

lemma batch_rl_gets [simp]: "is_batch_mode (snd (snd (rl_gets input s))) = is_batch_mode s"
  by (simp add: rl_gets_def readline_def Let_def split: list.splits)

text \<open>The loop, unfolded at end of input and at a line.\<close>

lemma rl_gets_Nil: "rl_gets [] s = (None, [], emit (Readline prompt) (s\<lparr>line_read := None\<rparr>))"
  by (simp add: rl_gets_def readline_def Let_def)

lemma rl_gets_Cons: "rl_gets (str # rest) s = (Some str, rest, fetched str s)"
  by (simp add: rl_gets_def readline_def fetched_def Let_def)

lemma sdb_loop_Nil: "sdb_loop ext [] s = ([], emit (Readline prompt) (s\<lparr>line_read := None\<rparr>))"
  by (simp add: sdb_loop.simps [of ext "[]" s] rl_gets_Nil)

lemma sdb_loop_Cons:
  "sdb_loop ext (str # rest) s =
     (if fst (sdb_line ext str (fetched str s)) then (rest, snd (sdb_line ext str (fetched str s)))
      else sdb_loop ext rest (snd (sdb_line ext str (fetched str s))))"
  by (simp add: sdb_loop.simps [of ext "str # rest" s] rl_gets_Cons split: prod.splits)

lemma fetched_fields [simp]:
  "machine (fetched str s) = machine s"
  "is_batch_mode (fetched str s) = is_batch_mode s"
  "line_read (fetched str s) = Some str"
  "strtok_save (fetched str s) = strtok_save s"
  "trace (fetched str s) =
     trace s @ Readline prompt # (if str \<noteq> [] then [Add_history str] else [])"
  by (simp_all add: fetched_def Let_def)

lemma batch_sdb_loop [simp]: "is_batch_mode (snd (sdb_loop ext input s)) = is_batch_mode s"
proof (induction input arbitrary: s)
  case Nil
  show ?case by (simp add: sdb_loop_Nil)
next
  case (Cons str rest)
  show ?case by (simp add: sdb_loop_Cons Cons.IH)
qed

section \<open>The batch-mode flag\<close>

text \<open>
  Claim C10. The flag \<^verbatim>\<open>is_batch_mode\<close> is false (interactive) in the initial state;
  \<^verbatim>\<open>sdb_set_batch_mode\<close> sets it to true, and calling it once more, any number of
  times, changes nothing; every other operation of the file (each handler called through
  the table, \<^verbatim>\<open>rl_gets\<close>, \<^verbatim>\<open>sdb_mainloop\<close>, \<^verbatim>\<open>init_sdb\<close>) leaves the flag as it found it,
  so nothing ever sets it back to interactive.
\<close>

theorem batch_flag_monotone:
  "\<not> is_batch_mode (sdb_initial m)
   \<and> is_batch_mode (sdb_set_batch_mode s)
   \<and> (sdb_set_batch_mode ^^ Suc n) s = sdb_set_batch_mode s
   \<and> is_batch_mode (snd (call ext h args s)) = is_batch_mode s
   \<and> is_batch_mode (snd (snd (rl_gets input s))) = is_batch_mode s
   \<and> is_batch_mode (snd (sdb_mainloop ext input s)) = is_batch_mode s
   \<and> is_batch_mode (init_sdb ext s) = is_batch_mode s"
proof -
  have idem: "(sdb_set_batch_mode ^^ Suc n) s = sdb_set_batch_mode s"
    by (induction n) (simp_all add: sdb_set_batch_mode_def)
  have loop: "is_batch_mode (snd (sdb_mainloop ext input s)) = is_batch_mode s"
    by (simp add: sdb_mainloop_def cmd_c_def)
  have init: "is_batch_mode (init_sdb ext s) = is_batch_mode s"
    by (simp add: init_sdb_def Let_def)
  have start: "\<not> is_batch_mode (sdb_initial m)"
    by (simp add: sdb_initial_def)
  have set: "is_batch_mode (sdb_set_batch_mode s)"
    by (simp add: sdb_set_batch_mode_def)
  from start set idem loop init show ?thesis
    by simp
qed

section \<open>Tokens and space-separated words\<close>

lemma strspn_space: "drop (strspn s '' '') s = dropWhile (\<lambda>c. c = CHR '' '') s"
  by (simp add: strspn_def dropWhile_eq_drop [symmetric])

lemma strcspn_space_take: "take (strcspn s '' '') s = takeWhile (\<lambda>c. c \<noteq> CHR '' '') s"
  by (simp add: strcspn_def takeWhile_eq_take [symmetric])

lemma strcspn_space_drop: "drop (strcspn s '' '') s = dropWhile (\<lambda>c. c \<noteq> CHR '' '') s"
  by (simp add: strcspn_def dropWhile_eq_drop [symmetric])

lemma strtok_r_space:
  "strtok_r s '' '' =
     (let s1 = dropWhile (\<lambda>c. c = CHR '' '') s in
      if s1 = [] then (None, [])
      else (Some (takeWhile (\<lambda>c. c \<noteq> CHR '' '') s1),
            case dropWhile (\<lambda>c. c \<noteq> CHR '' '') s1 of [] \<Rightarrow> [] | d # r \<Rightarrow> r))"
proof -
  define s1 where "s1 = dropWhile (\<lambda>c. c = CHR '' '') s"
  define r where "r = dropWhile (\<lambda>c. c \<noteq> CHR '' '') s1"
  have "strtok_r s '' '' =
      (if s1 = [] then (None, s1)
       else if r = [] then (Some (takeWhile (\<lambda>c. c \<noteq> CHR '' '') s1), r)
       else (Some (takeWhile (\<lambda>c. c \<noteq> CHR '' '') s1), tl r))"
    unfolding strtok_r_def Let_def strspn_space strcspn_space_take strcspn_space_drop
      s1_def r_def ..
  also have "\<dots> =
      (if s1 = [] then (None, [])
       else (Some (takeWhile (\<lambda>c. c \<noteq> CHR '' '') s1), case r of [] \<Rightarrow> [] | d # r' \<Rightarrow> r'))"
    by (cases r) simp_all
  finally show ?thesis
    unfolding s1_def r_def Let_def .
qed


lemma words_by_acc:
  "words_by P acc s =
     (if acc @ takeWhile (\<lambda>c. \<not> P c) s = [] then [] else [acc @ takeWhile (\<lambda>c. \<not> P c) s])
     @ (case dropWhile (\<lambda>c. \<not> P c) s of [] \<Rightarrow> [] | d # r \<Rightarrow> words_by P [] r)"
  by (induction s arbitrary: acc) auto

lemma words_by_skip: "words_by P [] s = words_by P [] (dropWhile P s)"
  by (induction s) auto

lemma strtok_r_words:
  "fst (strtok_r s '' '') = (case space_words s of [] \<Rightarrow> None | w # ws \<Rightarrow> Some w)
   \<and> space_words (snd (strtok_r s '' '')) = tl (space_words s)"
proof -
  define s1 where "s1 = dropWhile (\<lambda>c. c = CHR '' '') s"
  have sw: "space_words s = space_words s1"
    unfolding space_words_def s1_def by (rule words_by_skip)
  show ?thesis
  proof (cases "s1 = []")
    case True
    have "strtok_r s '' '' = (None, [])"
      using True unfolding strtok_r_space s1_def [symmetric] Let_def by simp
    moreover have "space_words s1 = []"
      using True by (simp add: space_words_def)
    ultimately show ?thesis
      using sw by (simp add: space_words_def)
  next
    case False
    then have "hd s1 \<noteq> CHR '' ''"
      unfolding s1_def using hd_dropWhile [of "\<lambda>c. c = CHR '' ''" s] by simp
    with False have tw: "takeWhile (\<lambda>c. c \<noteq> CHR '' '') s1 \<noteq> []"
      by (cases s1) auto
    have H: "space_words s1 =
        [takeWhile (\<lambda>c. c \<noteq> CHR '' '') s1]
        @ (case dropWhile (\<lambda>c. c \<noteq> CHR '' '') s1 of [] \<Rightarrow> [] | d # r \<Rightarrow> space_words r)"
      unfolding space_words_def
      using words_by_acc [of "\<lambda>c. c = CHR '' ''" "[]" s1] tw by simp
    have "space_words s1 =
        takeWhile (\<lambda>c. c \<noteq> CHR '' '') s1
        # space_words (case dropWhile (\<lambda>c. c \<noteq> CHR '' '') s1 of [] \<Rightarrow> [] | d # r \<Rightarrow> r)"
    proof (cases "dropWhile (\<lambda>c. c \<noteq> CHR '' '') s1")
      case Nil
      have "space_words [] = []" by (simp add: space_words_def)
      with H show ?thesis unfolding Nil by simp
    next
      case (Cons d r)
      from H show ?thesis unfolding Cons by simp
    qed
    moreover have "strtok_r s '' '' =
        (Some (takeWhile (\<lambda>c. c \<noteq> CHR '' '') s1),
         case dropWhile (\<lambda>c. c \<noteq> CHR '' '') s1 of [] \<Rightarrow> [] | d # r \<Rightarrow> r)"
      using False unfolding strtok_r_space s1_def [symmetric] Let_def by simp
    ultimately show ?thesis
      using sw by simp
  qed
qed

lemma strtok_r_token:
  assumes "fst (strtok_r s '' '') = Some w"
  shows "w \<noteq> [] \<and> CHR '' '' \<notin> set w"
proof -
  define s1 where "s1 = dropWhile (\<lambda>c. c = CHR '' '') s"
  have eq: "strtok_r s '' '' =
      (if s1 = [] then (None, [])
       else (Some (takeWhile (\<lambda>c. c \<noteq> CHR '' '') s1),
             case dropWhile (\<lambda>c. c \<noteq> CHR '' '') s1 of [] \<Rightarrow> [] | d # r \<Rightarrow> r))"
    unfolding strtok_r_space s1_def [symmetric] Let_def ..
  from assms eq have ne: "s1 \<noteq> []"
    by (cases "s1 = []") simp_all
  with assms eq have w: "w = takeWhile (\<lambda>c. c \<noteq> CHR '' '') s1"
    by simp
  from ne have "hd s1 \<noteq> CHR '' ''"
    unfolding s1_def using hd_dropWhile [of "\<lambda>c. c = CHR '' ''" s] by simp
  with ne have "w \<noteq> []" unfolding w by (cases s1) auto
  moreover have "CHR '' '' \<notin> set w"
    unfolding w using set_takeWhileD [of "CHR '' ''" "\<lambda>c. c \<noteq> CHR '' ''" s1] by auto
  ultimately show ?thesis by simp
qed

lemma args_of_save:
  assumes "fst (strtok_r str '' '') = Some w"
  shows "args_of str w =
    (if snd (strtok_r str '' '') = [] then None else Some (snd (strtok_r str '' '')))"
proof -
  define k where "k = strspn str '' ''"
  define s1 where "s1 = drop k str"
  define n where "n = strcspn s1 '' ''"
  have eq: "strtok_r str '' '' =
      (if s1 = [] then (None, s1)
       else if drop n s1 = [] then (Some (take n s1), drop n s1)
       else (Some (take n s1), tl (drop n s1)))"
    unfolding strtok_r_def Let_def k_def s1_def n_def ..
  from assms eq have ne: "s1 \<noteq> []"
    by (cases "s1 = []") simp_all
  with assms eq have w: "w = take n s1"
    by (cases "drop n s1 = []") simp_all
  have nle: "n \<le> length s1"
    by (simp add: n_def strcspn_def length_takeWhile_le)
  have lw: "length w = n" using w nle by simp
  have r0: "drop n s1 = drop (k + n) str"
    by (simp add: s1_def add.commute)
  have "snd (strtok_r str '' '') = (if drop n s1 = [] then [] else tl (drop n s1))"
    using ne eq by simp
  also have "\<dots> = drop (k + n + 1) str"
    unfolding r0 by (simp add: tl_drop drop_Suc)
  finally have save: "snd (strtok_r str '' '') = drop (k + n + 1) str" .
  show ?thesis
    unfolding save args_of_def Let_def k_def [symmetric] lw by simp
qed

section \<open>The step command\<close>

lemma new_events_append: "trace s' = trace s @ es \<Longrightarrow> new_events s s' = es"
  by (simp add: new_events_def)



lemma strtok_None_words:
  "strtok None '' '' s =
     (case space_words (strtok_save s) of [] \<Rightarrow> None | w # ws \<Rightarrow> Some w,
      s\<lparr>strtok_save := snd (strtok_r (strtok_save s) '' '')\<rparr>)"
  using strtok_r_words [of "strtok_save s"] by (simp add: strtok_None_eq)


lemmas toy_eval =
  toy_ext_def toy_state_def toy_machine_def sdb_initial_def space_words_def



section \<open>The quit command\<close>

lemma fmt_u_small: "n < 10 \<Longrightarrow> fmt_u n = [digit_char n]"
  by (simp add: fmt_u.simps [of n])

lemma cmd_q_events:
  "new_events s (snd (cmd_q ext args s)) =
     [Printf (if halt_ret (nemu_state (machine s)) \<noteq> 0
              then ''NEMU has exited with code ''
                   @ fmt_d (sint (halt_ret (nemu_state (machine s)))) @ ''.'' @ nl
              else ''NEMU has exited successfully.'' @ nl),
      Printf (''Bye!'' @ nl)]"
  by (simp add: cmd_q_def Let_def new_events_append)

lemma cmd_q_result [simp]: "fst (cmd_q ext args s) = - 1"
  by (simp add: cmd_q_def Let_def)

lemma digit_val_chars:
  "list_all (\<lambda>d. digit_val (digit_char d) = d) [0, 1, 2, 3, 4, 5, 6, 7, 8, 9]"
  by code_simp

lemma digit_val_char: "d < 10 \<Longrightarrow> digit_val (digit_char d) = d"
proof -
  assume "d < 10"
  then have "d \<in> set [0, 1, 2, 3, 4, 5, 6, 7, 8, 9]"
    by (simp only: set_simps insert_iff empty_iff) arith
  with digit_val_chars show ?thesis
    unfolding list_all_iff by blast
qed

lemma digit_char_not_minus: "d < 10 \<Longrightarrow> digit_char d \<noteq> CHR ''-''"
proof -
  assume "d < 10"
  then have "d = 0 \<or> d = 1 \<or> d = 2 \<or> d = 3 \<or> d = 4 \<or> d = 5 \<or> d = 6 \<or> d = 7 \<or> d = 8 \<or> d = 9"
    by arith
  then show ?thesis
    by (elim disjE) (simp_all add: digit_char_def)
qed

lemma fmt_u_decode: "foldl (\<lambda>a c. 10 * a + digit_val c) 0 (fmt_u n) = n"
proof (induction n rule: fmt_u.induct)
  case (1 n)
  show ?case
  proof (cases "n < 10")
    case True
    then show ?thesis
      by (simp add: fmt_u.simps [of n] digit_val_char)
  next
    case False
    then show ?thesis
      using "1.IH" by (simp add: fmt_u.simps [of n] digit_val_char)
  qed
qed

lemma fmt_u_inj:
  assumes "fmt_u a = fmt_u b"
  shows "a = b"
proof -
  have "a = foldl (\<lambda>a c. 10 * a + digit_val c) 0 (fmt_u a)"
    by (simp only: fmt_u_decode)
  also have "\<dots> = foldl (\<lambda>a c. 10 * a + digit_val c) 0 (fmt_u b)"
    by (simp only: assms)
  also have "\<dots> = b"
    by (rule fmt_u_decode)
  finally show ?thesis .
qed

lemma fmt_u_hd: "fmt_u n \<noteq> [] \<and> hd (fmt_u n) \<noteq> CHR ''-''"
proof (induction n rule: fmt_u.induct)
  case (1 n)
  show ?case
  proof (cases "n < 10")
    case True
    then show ?thesis
      by (simp add: fmt_u.simps [of n] digit_char_not_minus)
  next
    case False
    then show ?thesis
      using "1.IH" by (simp add: fmt_u.simps [of n])
  qed
qed

lemma fmt_d_inj: "fmt_d i = fmt_d j \<Longrightarrow> i = j"
proof -
  assume eq: "fmt_d i = fmt_d j"
  have neg: "hd (fmt_d k) = CHR ''-''" if "k < 0" for k
    using that by (simp add: fmt_d_def)
  have pos: "hd (fmt_d k) \<noteq> CHR ''-''" if "\<not> k < 0" for k
    using that fmt_u_hd [of "nat k"] by (simp add: fmt_d_def)
  have same: "i < 0 \<longleftrightarrow> j < 0"
  proof
    assume "i < 0"
    then have "hd (fmt_d j) = CHR ''-''" using neg [of i] eq by simp
    then show "j < 0" using pos [of j] by blast
  next
    assume "j < 0"
    then have "hd (fmt_d i) = CHR ''-''" using neg [of j] eq by simp
    then show "i < 0" using pos [of i] by blast
  qed
  show ?thesis
  proof (cases "i < 0")
    case True
    with same eq have "fmt_u (nat (- i)) = fmt_u (nat (- j))"
      by (simp add: fmt_d_def)
    then have "nat (- i) = nat (- j)" by (rule fmt_u_inj)
    with True same show ?thesis by simp
  next
    case False
    with same eq have "fmt_u (nat i) = fmt_u (nat j)"
      by (simp add: fmt_d_def)
    then have "nat i = nat j" by (rule fmt_u_inj)
    with False same show ?thesis by simp
  qed
qed

lemma cmd_q_events_inj:
  "new_events s (snd (cmd_q ext args s)) = new_events t (snd (cmd_q ext' args' t))
   \<longleftrightarrow> halt_ret (nemu_state (machine s)) = halt_ret (nemu_state (machine t))"
proof -
  have inj: "a = b" if "fmt_d (sint a) = fmt_d (sint b)" for a b :: "32 word"
    using fmt_d_inj [OF that] by (rule signed_word_eqI)
  show ?thesis
  proof
    assume "new_events s (snd (cmd_q ext args s)) = new_events t (snd (cmd_q ext' args' t))"
    then show "halt_ret (nemu_state (machine s)) = halt_ret (nemu_state (machine t))"
      unfolding cmd_q_events
      by (cases "halt_ret (nemu_state (machine s)) = 0"; cases "halt_ret (nemu_state (machine t)) = 0")
         (simp_all add: inj)
  next
    assume "halt_ret (nemu_state (machine s)) = halt_ret (nemu_state (machine t))"
    then show "new_events s (snd (cmd_q ext args s)) = new_events t (snd (cmd_q ext' args' t))"
      by (simp add: cmd_q_events)
  qed
qed

text \<open>
  Claim C3, as the code has it. What \<^verbatim>\<open>cmd_q\<close> prints is determined by the value of
  \<^verbatim>\<open>nemu_state.halt_ret\<close>, and determines it: two states print the same two lines
  exactly when their halt return codes are equal, whatever else differs (also the
  parameter and the external functions). When the code is zero the lines are
  \<^verbatim>\<open>NEMU has exited successfully.\<close> and \<^verbatim>\<open>Bye!\<close>, so any two states with code zero
  print the same; when it is not zero the first line carries the code in decimal, read
  as signed, so two different non-zero codes print different lines.
\<close>

theorem cmd_q_message:
  "(new_events s (snd (cmd_q ext args s)) = new_events t (snd (cmd_q ext' args' t))
      \<longleftrightarrow> halt_ret (nemu_state (machine s)) = halt_ret (nemu_state (machine t)))
   \<and> (halt_ret (nemu_state (machine s)) = 0 \<longrightarrow>
      new_events s (snd (cmd_q ext args s))
        = [Printf (''NEMU has exited successfully.'' @ nl), Printf (''Bye!'' @ nl)])
   \<and> (halt_ret (nemu_state (machine s)) \<noteq> 0 \<longrightarrow>
      new_events s (snd (cmd_q ext args s))
        = [Printf (''NEMU has exited with code ''
                   @ fmt_d (sint (halt_ret (nemu_state (machine s)))) @ ''.'' @ nl),
           Printf (''Bye!'' @ nl)])"
  using cmd_q_events_inj [of s ext args t ext' args'] by (simp add: cmd_q_events)

theorem cmd_q_message_witness:
  "quit_in 0 = [Printf (''NEMU has exited successfully.'' @ nl), Printf (''Bye!'' @ nl)]
   \<and> quit_in 1 = [Printf (''NEMU has exited with code 1.'' @ nl), Printf (''Bye!'' @ nl)]
   \<and> quit_in 0xFFFFFFFF = [Printf (''NEMU has exited with code -1.'' @ nl), Printf (''Bye!'' @ nl)]
   \<and> new_events ((sdb_initial (toy_machine 1))\<lparr>strtok_save := ''x''\<rparr>)
        (snd (cmd_q toy_ext (Some ''x'') ((sdb_initial (toy_machine 1))\<lparr>strtok_save := ''x''\<rparr>)))
      = quit_in 1"
proof -
  have h: "\<And>r. halt_ret (nemu_state (machine (sdb_initial (toy_machine r) :: nat sdb))) = r"
    by (simp add: sdb_initial_def toy_machine_def)
  have h': "halt_ret (nemu_state (machine ((sdb_initial (toy_machine 1) :: nat sdb)\<lparr>strtok_save := ''x''\<rparr>))) = 1"
    by (simp add: sdb_initial_def toy_machine_def)
  show ?thesis
    unfolding quit_in_def
    using cmd_q_message [of "sdb_initial (toy_machine 0)" toy_ext None "sdb_initial (toy_machine 0)" toy_ext None]
      cmd_q_message [of "sdb_initial (toy_machine 1)" toy_ext None "sdb_initial (toy_machine 1)" toy_ext None]
      cmd_q_message [of "sdb_initial (toy_machine 0xFFFFFFFF)" toy_ext None "sdb_initial (toy_machine 0xFFFFFFFF)" toy_ext None]
      cmd_q_message [of "(sdb_initial (toy_machine 1))\<lparr>strtok_save := ''x''\<rparr>" toy_ext "Some ''x''" "sdb_initial (toy_machine 1)" toy_ext None]
    by (simp add: h h' fmt_d_def fmt_u_small digit_char_def)
qed

text \<open>
  The claim as stated fails: the codes 1 and 2 are both non-zero, and the messages
  differ.
\<close>

theorem cmd_q_message_counterexample:
  "halt_ret (nemu_state (machine (sdb_initial (toy_machine 1) :: nat sdb))) \<noteq> 0
   \<and> halt_ret (nemu_state (machine (sdb_initial (toy_machine 2) :: nat sdb))) \<noteq> 0
   \<and> quit_in 1 \<noteq> quit_in 2"
  by (simp add: quit_in_def cmd_q_events sdb_initial_def toy_machine_def fmt_d_def fmt_u_small
      digit_char_def)

section \<open>What a handler and one iteration of the loop do\<close>

lemma help_all_fields [simp]:
  "trace (help_all cs s) = trace s @ map (\<lambda>c. Printf (help_line c)) cs"
  "machine (help_all cs s) = machine s"
  "line_read (help_all cs s) = line_read s"
  "strtok_save (help_all cs s) = strtok_save s"
  by (induction cs arbitrary: s) simp_all

lemma help_one_fields [simp]:
  "trace (help_one a cs s) =
     trace s @ [Printf (case find (\<lambda>c. a = name c) cs of
                          Some c \<Rightarrow> help_line c | None \<Rightarrow> unknown_command a)]"
  "machine (help_one a cs s) = machine s"
  "line_read (help_one a cs s) = line_read s"
  "strtok_save (help_one a cs s) = strtok_save s"
  by (induction cs arbitrary: s) simp_all

lemma quiet_simps [simp]:
  "quiet []"
  "quiet (e # es) = (\<not> is_call e \<and> \<not> is_readline e \<and> quiet es)"
  "quiet (es @ es') = (quiet es \<and> quiet es')"
  by (auto simp: quiet_def)

lemma quiet_help_lines [simp]: "quiet (map (\<lambda>c. Printf (f c)) cs)"
  by (induction cs) simp_all

lemma call_trace:
  "\<exists>es. trace (snd (call ext h args s)) = trace s @ es \<and> quiet es"
  by (cases h)
     (simp_all add: call_def cmd_help_def cmd_c_def cmd_q_def cmd_si_def cmd_info_def cmd_x_def
        strtok_None_eq Let_def split: option.splits)

lemma call_line_read [simp]: "line_read (snd (call ext h args s)) = line_read s"
  by (cases h)
     (simp_all add: call_def cmd_help_def cmd_c_def cmd_q_def cmd_si_def cmd_info_def cmd_x_def
        strtok_None_eq Let_def split: option.splits)

lemma call_status: "fst (call ext h args s) = (if h = Cmd_q then - 1 else 0)"
  by (cases h)
     (simp_all add: call_def cmd_help_def cmd_c_def cmd_q_def cmd_si_def cmd_info_def cmd_x_def
        strtok_None_eq Let_def split: option.splits)

lemma invoke_trace:
  "\<exists>es. trace (snd (invoke ext h args s)) = trace s @ Call h args # es \<and> quiet es"
  using call_trace [of ext h args "emit (Call h args) s"] by (auto simp: invoke_def)

lemma invoke_line_read [simp]: "line_read (snd (invoke ext h args s)) = line_read s"
  by (simp add: invoke_def)

lemma invoke_status: "fst (invoke ext h args s) = (if h = Cmd_q then - 1 else 0)"
  by (simp add: invoke_def call_status)

lemma lookup_loop_found:
  "find (\<lambda>c. w = name c) tbl = Some c \<Longrightarrow>
   lookup_loop ext w args tbl s =
     (fst (invoke ext (handler c) args s) < 0, snd (invoke ext (handler c) args s))"
  by (induction tbl) (auto simp: Let_def split: prod.splits if_splits)

lemma lookup_loop_unknown:
  "find (\<lambda>c. w = name c) tbl = None \<Longrightarrow>
   lookup_loop ext w args tbl s = (False, printf (unknown_command w) s)"
  by (induction tbl) (auto split: if_splits)

lemma sdb_line_blank:
  "space_words str = [] \<Longrightarrow>
   sdb_line ext str s = (False, s\<lparr>strtok_save := [], line_read := Some str\<rparr>)"
proof -
  assume a: "space_words str = []"
  have n: "fst (strtok_r str '' '') = None"
    using strtok_r_words [of str] a by simp
  have e: "drop (strspn str '' '') str = []"
    using n by (auto simp: strtok_r_def Let_def split: if_splits)
  have "snd (strtok_r str '' '') = []"
    using e by (simp add: strtok_r_def)
  moreover have "strtok_cut str '' '' = str"
    using e by (simp add: strtok_cut_def)
  ultimately show ?thesis
    using n by (simp add: sdb_line_def strtok_Some_eq)
qed

lemma fetched_line_read: "(fetched str s)\<lparr>line_read := Some str\<rparr> = fetched str s"
  by (simp add: fetched_def emit_def Let_def)

lemma sdb_loop_blank:
  "space_words str = [] \<Longrightarrow>
   sdb_loop ext (str # rest) s = sdb_loop ext rest ((fetched str s)\<lparr>strtok_save := []\<rparr>)"
proof -
  assume a: "space_words str = []"
  have "(fetched str s)\<lparr>strtok_save := [], line_read := Some str\<rparr>
      = ((fetched str s)\<lparr>line_read := Some str\<rparr>)\<lparr>strtok_save := []\<rparr>"
    by simp
  also have "\<dots> = (fetched str s)\<lparr>strtok_save := []\<rparr>"
    by (simp only: fetched_line_read)
  finally have eq: "(fetched str s)\<lparr>strtok_save := [], line_read := Some str\<rparr>
      = (fetched str s)\<lparr>strtok_save := []\<rparr>" .
  show ?thesis
    by (simp add: sdb_loop_Cons sdb_line_blank [OF a] eq)
qed

lemma sdb_line_word:
  "space_words str = w # ws \<Longrightarrow>
   sdb_line ext str (fetched str s) =
     lookup_loop ext w (args_of str w) cmd_table (before_lookup ext str s)"
proof -
  assume a: "space_words str = w # ws"
  have "fst (strtok_r str '' '') = Some w"
    using strtok_r_words [of str] a by simp
  then show ?thesis
    by (simp add: sdb_line_def strtok_Some_eq before_lookup_def Let_def)
qed

lemma before_lookup_fields:
  "strtok_save (before_lookup ext str s) = snd (strtok_r str '' '')"
  "line_read (before_lookup ext str s) = Some (strtok_cut str '' '')"
  "is_batch_mode (before_lookup ext str s) = is_batch_mode s"
  "machine (before_lookup ext str s) =
     (if CONFIG_DEVICE ext then sdl_clear_event_queue ext (machine s) else machine s)"
  "trace (before_lookup ext str s) =
     trace s @ Readline prompt # (if str \<noteq> [] then [Add_history str] else [])
     @ (if CONFIG_DEVICE ext then [Ev_sdl_clear_event_queue] else [])"
  by (simp_all add: before_lookup_def strtok_Some_eq do_sdl_clear_event_queue_def Let_def)

lemma space_words_nonempty: "space_words str = w # ws \<Longrightarrow> str \<noteq> []"
  by (auto simp: space_words_def)

lemma args_of_words:
  "space_words str = w # ws \<Longrightarrow>
   args_of str w = (if strtok_save (before_lookup ext str s) = [] then None
                    else Some (strtok_save (before_lookup ext str s)))
   \<and> space_words (strtok_save (before_lookup ext str s)) = ws"
proof -
  assume a: "space_words str = w # ws"
  have f: "fst (strtok_r str '' '') = Some w" and r: "space_words (snd (strtok_r str '' '')) = ws"
    using strtok_r_words [of str] a by simp_all
  show ?thesis
    using args_of_save [OF f] r by (simp add: before_lookup_fields)
qed

lemma sdb_line_trace:
  "\<exists>es. trace (snd (sdb_line ext str s)) = trace s @ es \<and> \<not> list_ex is_readline es"
proof (cases "space_words str")
  case Nil
  then show ?thesis by (simp add: sdb_line_blank)
next
  case (Cons w ws)
  have f: "fst (strtok_r str '' '') = Some w"
    using strtok_r_words [of str] Cons by simp
  define s1 where "s1 = s\<lparr>strtok_save := snd (strtok_r str '' ''),
      line_read := Some (strtok_cut str '' '')\<rparr>"
  define s2 where "s2 = (if CONFIG_DEVICE ext then do_sdl_clear_event_queue ext s1 else s1)"
  have line: "sdb_line ext str s = lookup_loop ext w (args_of str w) cmd_table s2"
    using f by (simp add: sdb_line_def strtok_Some_eq s2_def s1_def Let_def)
  have t2: "trace s2 = trace s @ (if CONFIG_DEVICE ext then [Ev_sdl_clear_event_queue] else [])"
    by (simp add: s2_def s1_def do_sdl_clear_event_queue_def)
  show ?thesis
  proof (cases "find (\<lambda>c. w = name c) cmd_table")
    case None
    then show ?thesis
      using t2 by (simp add: line lookup_loop_unknown)
  next
    case (Some c)
    obtain es where "trace (snd (invoke ext (handler c) (args_of str w) s2))
        = trace s2 @ Call (handler c) (args_of str w) # es" and "quiet es"
      using invoke_trace [of ext "handler c" "args_of str w" s2] by blast
    then show ?thesis
      using t2 Some by (auto simp: line lookup_loop_found quiet_def list_ex_iff)
  qed
qed

lemma sdb_loop_first_event:
  "\<exists>es. trace (snd (sdb_loop ext input s)) = trace s @ Readline prompt # es"
proof (induction input arbitrary: s)
  case Nil
  show ?case by (simp add: sdb_loop_Nil)
next
  case (Cons str rest)
  obtain es where l: "trace (snd (sdb_line ext str (fetched str s))) = trace (fetched str s) @ es"
    using sdb_line_trace [of ext str "fetched str s"] by blast
  show ?case
  proof (cases "fst (sdb_line ext str (fetched str s))")
    case True
    then show ?thesis
      using l by (simp add: sdb_loop_Cons)
  next
    case False
    obtain es' where "trace (snd (sdb_loop ext rest (snd (sdb_line ext str (fetched str s)))))
        = trace (snd (sdb_line ext str (fetched str s))) @ Readline prompt # es'"
      using Cons.IH by blast
    then show ?thesis
      using l False by (simp add: sdb_loop_Cons)
  qed
qed

lemma sdb_loop_word:
  assumes "space_words str = w # ws" and "find (\<lambda>c. w = name c) cmd_table = Some c"
    and "invoke ext (handler c) (args_of str w) (before_lookup ext str s) = (r, s2)"
  shows "sdb_loop ext (str # rest) s = (if r < 0 then (rest, s2) else sdb_loop ext rest s2)"
  using assms by (simp add: sdb_loop_Cons sdb_line_word lookup_loop_found)

lemma find_q: "find (\<lambda>c. ''q'' = name c) cmd_table
    = Some \<lparr>name = ''q'', description = ''Exit NEMU'', handler = Cmd_q\<rparr>"
  by (simp add: cmd_table_def)

section \<open>The main loop\<close>

text \<open>
  Claim C2. Let the line \<open>str\<close> have the command word \<open>w\<close>, the name of the table
  entry \<open>c\<close>, and let the handler of \<open>c\<close>, called with the argument remainder in the
  state the loop has reached, return the status \<open>r\<close> and the state \<open>s2\<close>. If \<open>r\<close> is
  negative the loop returns at once: the lines after \<open>str\<close> are left unread and the
  final state is \<open>s2\<close>. If \<open>r\<close> is zero or positive the loop goes on from \<open>s2\<close> with
  the lines after \<open>str\<close>, and the first thing it does is to fetch a line. \<^verbatim>\<open>cmd_q\<close>
  returns \<open>-1\<close> in every state and for every argument, so a line whose command word is
  \<^verbatim>\<open>q\<close> ends the loop: the lines after it are unread and no line was fetched after it.
\<close>

theorem negative_status_ends_loop:
  "(\<forall>w ws c r s2.
      space_words str = w # ws \<and> find (\<lambda>c. w = name c) cmd_table = Some c
      \<and> invoke ext (handler c) (args_of str w) (before_lookup ext str s) = (r, s2) \<longrightarrow>
        (r < 0 \<longrightarrow> sdb_loop ext (str # rest) s = (rest, s2))
        \<and> (0 \<le> r \<longrightarrow> sdb_loop ext (str # rest) s = sdb_loop ext rest s2
              \<and> (\<exists>es. new_events s2 (snd (sdb_loop ext rest s2)) = Readline prompt # es)))
   \<and> fst (cmd_q ext args t) = - 1
   \<and> (\<forall>ws. space_words str = ''q'' # ws \<longrightarrow>
        fst (sdb_loop ext (str # rest) s) = rest
        \<and> filter is_readline (new_events s (snd (sdb_loop ext (str # rest) s))) = [Readline prompt])"
proof -
  have a: "sdb_loop ext (str # rest) s = (rest, s2)"
    if "space_words str = w # ws" "find (\<lambda>c. w = name c) cmd_table = Some c"
      "invoke ext (handler c) (args_of str w) (before_lookup ext str s) = (r, s2)" "r < 0"
    for w ws c r s2
    using sdb_loop_word [OF that(1) that(2) that(3)] that(4) by simp
  have b: "sdb_loop ext (str # rest) s = sdb_loop ext rest s2"
    if "space_words str = w # ws" "find (\<lambda>c. w = name c) cmd_table = Some c"
      "invoke ext (handler c) (args_of str w) (before_lookup ext str s) = (r, s2)" "0 \<le> r"
    for w ws c r s2
    using sdb_loop_word [OF that(1) that(2) that(3)] that(4) by simp
  have c: "\<exists>es. new_events s2 (snd (sdb_loop ext rest s2)) = Readline prompt # es" for s2
    using sdb_loop_first_event [of ext rest s2] by (auto simp: new_events_def)
  have q: "fst (sdb_loop ext (str # rest) s) = rest
        \<and> filter is_readline (new_events s (snd (sdb_loop ext (str # rest) s))) = [Readline prompt]"
    if w: "space_words str = ''q'' # ws" for ws
  proof -
    define a where "a = args_of str ''q''"
    define s1 where "s1 = before_lookup ext str s"
    obtain es where es: "trace (snd (invoke ext Cmd_q a s1)) = trace s1 @ Call Cmd_q a # es"
      and qu: "quiet es"
      using invoke_trace [of ext Cmd_q a s1] by blast
    have st: "fst (invoke ext Cmd_q a s1) = - 1"
      by (simp add: invoke_status)
    have loop: "sdb_loop ext (str # rest) s = (rest, snd (invoke ext Cmd_q a s1))"
      using sdb_loop_word [OF w find_q, of ext s "- 1" "snd (invoke ext Cmd_q a s1)" rest] st
      by (simp add: a_def s1_def prod_eq_iff)
    have ne: "str \<noteq> []" using space_words_nonempty [OF w] .
    have fq: "filter is_readline es = []"
      using qu by (auto simp: quiet_def filter_empty_conv)
    have "trace (snd (invoke ext Cmd_q a s1)) =
        trace s @ (Readline prompt # Add_history str
          # (if CONFIG_DEVICE ext then [Ev_sdl_clear_event_queue] else []) @ Call Cmd_q a # es)"
      using ne unfolding es by (simp add: s1_def before_lookup_fields)
    then have "new_events s (snd (invoke ext Cmd_q a s1)) =
        Readline prompt # Add_history str
          # (if CONFIG_DEVICE ext then [Ev_sdl_clear_event_queue] else []) @ Call Cmd_q a # es"
      by (rule new_events_append)
    then show ?thesis
      using fq by (simp add: loop)
  qed
  from a b c q show ?thesis
    by (simp add: cmd_q_result)
qed

theorem negative_status_ends_loop_witness:
  "fst (sdb_loop toy_ext [''q'', ''c''] (toy_state [])) = [''c'']
   \<and> filter is_readline (new_events (toy_state []) (snd (sdb_loop toy_ext [''q'', ''c''] (toy_state []))))
       = [Readline prompt]
   \<and> fst (sdb_loop toy_ext [''si 2'', ''q'', ''c''] (toy_state [])) = [''c'']"
proof -
  define s2 where "s2 = snd (invoke toy_ext Cmd_si (args_of ''si 2'' ''si'')
    (before_lookup toy_ext ''si 2'' (toy_state [])))"
  have wq: "space_words ''q'' = [''q'']" and wsi: "space_words ''si 2'' = [''si'', ''2'']"
    by (simp_all add: space_words_def)
  have fsi: "find (\<lambda>c. ''si'' = name c) cmd_table
      = Some \<lparr>name = ''si'', description = ''Execute N step(s)'', handler = Cmd_si\<rparr>"
    by (simp add: cmd_table_def)
  have r: "invoke toy_ext
      (handler \<lparr>name = ''si'', description = ''Execute N step(s)'', handler = Cmd_si\<rparr>)
      (args_of ''si 2'' ''si'') (before_lookup toy_ext ''si 2'' (toy_state [])) = (0, s2)"
    by (simp add: s2_def prod_eq_iff invoke_status)
  have q0: "fst (sdb_loop toy_ext [''q'', ''c''] (toy_state [])) = [''c'']
      \<and> filter is_readline (new_events (toy_state []) (snd (sdb_loop toy_ext [''q'', ''c''] (toy_state []))))
          = [Readline prompt]"
    using negative_status_ends_loop [of "''q''" toy_ext "toy_state []" "[''c'']"] wq by blast
  have q2: "fst (sdb_loop toy_ext [''q'', ''c''] s2) = [''c'']"
    using negative_status_ends_loop [of "''q''" toy_ext s2 "[''c'']"] wq by blast
  have "sdb_loop toy_ext [''si 2'', ''q'', ''c''] (toy_state []) = sdb_loop toy_ext [''q'', ''c''] s2"
    using negative_status_ends_loop [of "''si 2''" toy_ext "toy_state []" "[''q'', ''c'']"] wsi fsi r
    by (metis order_refl)
  with q0 q2 show ?thesis by simp
qed

section \<open>Batch mode\<close>

text \<open>
  Claim C5. With the flag set, \<^verbatim>\<open>sdb_mainloop\<close> reads no line: the lines of the line
  source are all still there when it returns, and what it did is one call of \<^verbatim>\<open>cmd_c\<close>
  with the argument \<^verbatim>\<open>NULL\<close>, which is one call \<^verbatim>\<open>cpu_exec(-1)\<close>. With the flag clear,
  \<^verbatim>\<open>sdb_mainloop\<close> is the interactive loop, and the first thing it does is to fetch a
  line, not to call \<^verbatim>\<open>cmd_c\<close>.
\<close>

theorem batch_mode_calls_cmd_c_once:
  "(is_batch_mode s \<longrightarrow>
      fst (sdb_mainloop ext input s) = input
      \<and> new_events s (snd (sdb_mainloop ext input s)) = [Call Cmd_c None, Ev_cpu_exec (- 1)]
      \<and> machine (snd (sdb_mainloop ext input s)) = cpu_exec ext (- 1) (machine s))
   \<and> (\<not> is_batch_mode s \<longrightarrow>
      sdb_mainloop ext input s = sdb_loop ext input s
      \<and> (\<exists>es. new_events s (snd (sdb_mainloop ext input s)) = Readline prompt # es))"
proof (cases "is_batch_mode s")
  case True
  then show ?thesis
    by (simp add: sdb_mainloop_def cmd_c_def new_events_append)
next
  case False
  obtain es where "trace (snd (sdb_loop ext input s)) = trace s @ Readline prompt # es"
    using sdb_loop_first_event [of ext input s] by blast
  then have "new_events s (snd (sdb_loop ext input s)) = Readline prompt # es"
    by (rule new_events_append)
  with False show ?thesis
    by (simp add: sdb_mainloop_def)
qed

theorem batch_mode_calls_cmd_c_once_witness:
  "fst (sdb_mainloop toy_ext [''si 2'', ''q''] (sdb_set_batch_mode (toy_state []))) = [''si 2'', ''q'']
   \<and> new_events (sdb_set_batch_mode (toy_state []))
         (snd (sdb_mainloop toy_ext [''si 2'', ''q''] (sdb_set_batch_mode (toy_state []))))
       = [Call Cmd_c None, Ev_cpu_exec 0xFFFFFFFFFFFFFFFF]
   \<and> new_events (toy_state []) (snd (sdb_mainloop toy_ext [] (toy_state []))) = [Readline prompt]"
proof -
  have b: "is_batch_mode (sdb_set_batch_mode (toy_state []))"
    by (simp add: sdb_set_batch_mode_def)
  have i: "\<not> is_batch_mode (toy_state [])"
    by (simp add: toy_state_def sdb_initial_def)
  have "sdb_mainloop toy_ext [] (toy_state []) = sdb_loop toy_ext [] (toy_state [])"
    using batch_mode_calls_cmd_c_once [of "toy_state []" toy_ext "[]"] i by blast
  then have "new_events (toy_state []) (snd (sdb_mainloop toy_ext [] (toy_state []))) = [Readline prompt]"
    by (simp add: sdb_loop_Nil new_events_def)
  then show ?thesis
    using batch_mode_calls_cmd_c_once [of "sdb_set_batch_mode (toy_state [])" toy_ext "[''si 2'', ''q'']"] b
    by simp
qed

section \<open>The help command\<close>

lemma find_distinct:
  "distinct (map name tbl) \<Longrightarrow> c \<in> set tbl \<Longrightarrow> find (\<lambda>x. name c = name x) tbl = Some c"
  by (induction tbl) (auto simp: image_iff)

lemma find_absent:
  "a \<notin> name ` set tbl \<Longrightarrow> find (\<lambda>x. a = name x) tbl = None"
  by (auto simp: find_None_iff)

lemma distinct_names: "distinct (map name cmd_table)"
  by (simp add: cmd_table_def)

text \<open>
  Claim C8. \<^verbatim>\<open>cmd_help\<close> returns 0. Without an argument it prints the line
  \<^verbatim>\<open><name> - <description>\<close> of every entry of the table, each once, in the order of the
  table. With an argument that is the name of an entry it prints the line of that entry
  and nothing else (the names of the table are distinct). With any other argument \<open>a\<close>
  it prints \<^verbatim>\<open>Unknown command '<a>'\<close>. The argument is the first space-separated word
  of what follows the command word.
\<close>

theorem cmd_help_prints_table:
  "fst (cmd_help ext args s) = 0
   \<and> (space_words (strtok_save s) = [] \<longrightarrow>
        new_events s (snd (cmd_help ext args s))
          = map (\<lambda>c. Printf (name c @ '' - '' @ description c @ nl)) cmd_table)
   \<and> (\<forall>a ws. space_words (strtok_save s) = a # ws \<longrightarrow>
        (\<forall>c \<in> set cmd_table. a = name c \<longrightarrow>
           new_events s (snd (cmd_help ext args s))
             = [Printf (name c @ '' - '' @ description c @ nl)])
        \<and> (a \<notin> name ` set cmd_table \<longrightarrow>
           new_events s (snd (cmd_help ext args s))
             = [Printf (''Unknown command '' @ quote @ a @ quote @ nl)]))
   \<and> distinct (map name cmd_table)"
proof (cases "space_words (strtok_save s)")
  case Nil
  then show ?thesis
    by (simp add: cmd_help_def strtok_None_words new_events_append help_line_def distinct_names)
next
  case (Cons a ws)
  have known: "new_events s (snd (cmd_help ext args s)) = [Printf (name c @ '' - '' @ description c @ nl)]"
    if "c \<in> set cmd_table" "a = name c" for c
    using Cons find_distinct [OF distinct_names that(1)] that(2)
    by (simp add: cmd_help_def strtok_None_words new_events_append help_line_def)
  have unknown: "new_events s (snd (cmd_help ext args s))
      = [Printf (''Unknown command '' @ quote @ a @ quote @ nl)]"
    if "a \<notin> name ` set cmd_table"
    using Cons find_absent [OF that]
    by (simp add: cmd_help_def strtok_None_words new_events_append unknown_command_def)
  have "fst (cmd_help ext args s) = 0"
    by (simp add: cmd_help_def strtok_None_words split: list.splits)
  with Cons known unknown show ?thesis
    by (simp add: distinct_names)
qed

theorem cmd_help_prints_table_witness:
  "new_events (toy_state []) (snd (cmd_help toy_ext None (toy_state [])))
     = [Printf (''help - Display information about all supported commands'' @ nl),
        Printf (''c - Continue the execution of the program'' @ nl),
        Printf (''q - Exit NEMU'' @ nl),
        Printf (''si - Execute N step(s)'' @ nl),
        Printf (''info - Print program state'' @ nl),
        Printf (''x - Scan memory'' @ nl)]
   \<and> new_events (toy_state ''si'') (snd (cmd_help toy_ext (Some ''si'') (toy_state ''si'')))
     = [Printf (''si - Execute N step(s)'' @ nl)]
   \<and> new_events (toy_state ''foo'') (snd (cmd_help toy_ext (Some ''foo'') (toy_state ''foo'')))
     = [Printf (''Unknown command '' @ quote @ ''foo'' @ quote @ nl)]"
proof -
  have w0: "space_words (strtok_save (toy_state [])) = []"
    and w1: "space_words (strtok_save (toy_state ''si'')) = [''si'']"
    and w2: "space_words (strtok_save (toy_state ''foo'')) = [''foo'']"
    by (simp_all add: toy_eval)
  have si: "\<lparr>name = ''si'', description = ''Execute N step(s)'', handler = Cmd_si\<rparr> \<in> set cmd_table"
    by (simp add: cmd_table_def)
  have foo: "''foo'' \<notin> name ` set cmd_table"
    by (simp add: cmd_table_def)
  have a: "new_events (toy_state []) (snd (cmd_help toy_ext None (toy_state [])))
      = map (\<lambda>c. Printf (name c @ '' - '' @ description c @ nl)) cmd_table"
    by (rule cmd_help_prints_table [of toy_ext None "toy_state []",
          THEN conjunct2, THEN conjunct1, rule_format, OF w0])
  have b: "new_events (toy_state ''si'') (snd (cmd_help toy_ext (Some ''si'') (toy_state ''si'')))
      = [Printf (name \<lparr>name = ''si'', description = ''Execute N step(s)'', handler = Cmd_si\<rparr>
           @ '' - '' @ description \<lparr>name = ''si'', description = ''Execute N step(s)'', handler = Cmd_si\<rparr> @ nl)]"
    by (rule cmd_help_prints_table [of toy_ext "Some ''si''" "toy_state ''si''",
          THEN conjunct2, THEN conjunct2, THEN conjunct1, rule_format, OF w1,
          THEN conjunct1, rule_format, OF si]) simp
  have c: "new_events (toy_state ''foo'') (snd (cmd_help toy_ext (Some ''foo'') (toy_state ''foo'')))
      = [Printf (''Unknown command '' @ quote @ ''foo'' @ quote @ nl)]"
    by (rule cmd_help_prints_table [of toy_ext "Some ''foo''" "toy_state ''foo''",
          THEN conjunct2, THEN conjunct2, THEN conjunct1, rule_format, OF w2,
          THEN conjunct2, rule_format, OF foo])
  from a b c show ?thesis
    by (simp add: cmd_table_def)
qed

section \<open>Which handlers can end the loop\<close>

lemma find_quit:
  "find (\<lambda>c. w = name c) cmd_table = Some c \<Longrightarrow> handler c = Cmd_q \<Longrightarrow> w = ''q''"
  by (auto simp: cmd_table_def split: if_splits)

lemma sdb_loop_end:
  "(fst (sdb_loop ext input s) = [] \<and> line_read (snd (sdb_loop ext input s)) = None)
   \<or> (\<exists>pre str ws. input = pre @ str # fst (sdb_loop ext input s)
         \<and> space_words str = ''q'' # ws)"
proof (induction input arbitrary: s)
  case Nil
  show ?case by (simp add: sdb_loop_Nil)
next
  case (Cons str rest)
  have step: ?case if eq: "sdb_loop ext (str # rest) s = sdb_loop ext rest s'" for s'
  proof -
    from Cons.IH [of s'] show ?thesis
    proof
      assume "fst (sdb_loop ext rest s') = [] \<and> line_read (snd (sdb_loop ext rest s')) = None"
      then show ?thesis by (simp add: eq)
    next
      assume "\<exists>pre str' ws. rest = pre @ str' # fst (sdb_loop ext rest s')
         \<and> space_words str' = ''q'' # ws"
      then obtain pre str' ws where "rest = pre @ str' # fst (sdb_loop ext rest s')"
        "space_words str' = ''q'' # ws"
        by blast
      then have "str # rest = (str # pre) @ str' # fst (sdb_loop ext (str # rest) s)
          \<and> space_words str' = ''q'' # ws"
        by (simp add: eq)
      then show ?thesis by blast
    qed
  qed
  show ?case
  proof (cases "space_words str")
    case Nil
    show ?thesis
      by (rule step [of "(fetched str s)\<lparr>strtok_save := []\<rparr>"])
         (rule sdb_loop_blank [OF Nil])
  next
    case w: (Cons w ws)
    show ?thesis
    proof (cases "find (\<lambda>c. w = name c) cmd_table")
      case None
      show ?thesis
        by (rule step [of "printf (unknown_command w) (before_lookup ext str s)"])
           (simp add: sdb_loop_Cons sdb_line_word [OF w] lookup_loop_unknown [OF None])
    next
      case (Some c)
      define s2 where "s2 = snd (invoke ext (handler c) (args_of str w) (before_lookup ext str s))"
      have inv: "invoke ext (handler c) (args_of str w) (before_lookup ext str s)
          = (if handler c = Cmd_q then - 1 else 0, s2)"
        by (simp add: s2_def prod_eq_iff invoke_status)
      show ?thesis
      proof (cases "handler c = Cmd_q")
        case True
        have "w = ''q''" using find_quit [OF Some True] .
        moreover have "sdb_loop ext (str # rest) s = (rest, s2)"
          using sdb_loop_word [OF w Some inv, of rest] True by simp
        ultimately have "str # rest = [] @ str # fst (sdb_loop ext (str # rest) s)
            \<and> space_words str = ''q'' # ws"
          using w by simp
        then show ?thesis by blast
      next
        case False
        have "sdb_loop ext (str # rest) s = sdb_loop ext rest s2"
          using sdb_loop_word [OF w Some inv, of rest] False by simp
        then show ?thesis by (rule step)
      qed
    qed
  qed
qed

text \<open>
  The string at \<^verbatim>\<open>line_read\<close> after a line was dispatched ends where \<^verbatim>\<open>strtok\<close> wrote its
  NUL: after the line \<^verbatim>\<open>q now\<close> it is \<^verbatim>\<open>q\<close>.
\<close>

lemma line_read_after_q_now:
  "line_read (snd (sdb_loop toy_ext [''q now'', ''c''] (toy_state []))) = Some ''q''"
proof -
  define s3 where "s3 = snd (invoke toy_ext Cmd_q (args_of ''q now'' ''q'')
    (before_lookup toy_ext ''q now'' (toy_state [])))"
  have w: "space_words ''q now'' = [''q'', ''now'']"
    by (simp add: space_words_def)
  have rq: "invoke toy_ext
      (handler \<lparr>name = ''q'', description = ''Exit NEMU'', handler = Cmd_q\<rparr>)
      (args_of ''q now'' ''q'') (before_lookup toy_ext ''q now'' (toy_state [])) = (- 1, s3)"
    by (simp add: s3_def prod_eq_iff invoke_status)
  have "sdb_loop toy_ext [''q now'', ''c''] (toy_state []) = ([''c''], s3)"
    using sdb_loop_word [OF w find_q rq, of "[''c'']"] by simp
  moreover have "line_read s3 = Some (strtok_cut ''q now'' '' '')"
    by (simp add: s3_def before_lookup_fields)
  moreover have "strtok_cut ''q now'' '' '' = ''q''"
    by (simp add: strtok_cut_def strspn_def strcspn_def)
  ultimately show ?thesis by simp
qed

lemma toy_session_rest:
  "fst (sdb_loop toy_ext [''si 2'', ''q'', ''c''] (toy_state [])) = [''c'']"
proof -
  define s2 where "s2 = snd (invoke toy_ext Cmd_si (args_of ''si 2'' ''si'')
    (before_lookup toy_ext ''si 2'' (toy_state [])))"
  define s3 where "s3 = snd (invoke toy_ext Cmd_q (args_of ''q'' ''q'') (before_lookup toy_ext ''q'' s2))"
  have wq: "space_words ''q'' = [''q'']" and wsi: "space_words ''si 2'' = [''si'', ''2'']"
    by (simp_all add: space_words_def)
  have fsi: "find (\<lambda>c. ''si'' = name c) cmd_table
      = Some \<lparr>name = ''si'', description = ''Execute N step(s)'', handler = Cmd_si\<rparr>"
    by (simp add: cmd_table_def)
  have r: "invoke toy_ext
      (handler \<lparr>name = ''si'', description = ''Execute N step(s)'', handler = Cmd_si\<rparr>)
      (args_of ''si 2'' ''si'') (before_lookup toy_ext ''si 2'' (toy_state [])) = (0, s2)"
    by (simp add: s2_def prod_eq_iff invoke_status)
  have rq: "invoke toy_ext
      (handler \<lparr>name = ''q'', description = ''Exit NEMU'', handler = Cmd_q\<rparr>)
      (args_of ''q'' ''q'') (before_lookup toy_ext ''q'' s2) = (- 1, s3)"
    by (simp add: s3_def prod_eq_iff invoke_status)
  have "sdb_loop toy_ext [''si 2'', ''q'', ''c''] (toy_state []) = sdb_loop toy_ext [''q'', ''c''] s2"
    using sdb_loop_word [OF wsi fsi r, of "[''q'', ''c'']"] by simp
  also have "\<dots> = ([''c''], s3)"
    using sdb_loop_word [OF wq find_q rq, of "[''c'']"] by simp
  finally show ?thesis by simp
qed

text \<open>
  Claim C9. Every handler of the table other than \<^verbatim>\<open>cmd_q\<close> returns 0, whatever its
  parameter and whatever the state (so whatever \<^verbatim>\<open>strtok\<close> has left of the line). So the
  loop ends in one of two ways only: at end of input, when all lines were read and
  \<^verbatim>\<open>readline\<close> returned \<^verbatim>\<open>NULL\<close>, or after a line whose command word is \<^verbatim>\<open>q\<close>: the
  lines left unread are those after such a line.
\<close>

theorem only_quit_or_end_of_input_ends_loop:
  "(h \<noteq> Cmd_q \<longrightarrow> fst (call ext h args s) = 0)
   \<and> (\<forall>c \<in> set cmd_table. name c \<noteq> ''q'' \<longrightarrow> fst (call ext (handler c) args s) = 0)
   \<and> ((fst (sdb_loop ext input s) = [] \<and> line_read (snd (sdb_loop ext input s)) = None)
       \<or> (\<exists>pre str ws. input = pre @ str # fst (sdb_loop ext input s)
             \<and> space_words str = ''q'' # ws))"
proof -
  have "handler c \<noteq> Cmd_q" if "c \<in> set cmd_table" "name c \<noteq> ''q''" for c
    using that by (auto simp: cmd_table_def)
  then have "\<forall>c \<in> set cmd_table. name c \<noteq> ''q'' \<longrightarrow> fst (call ext (handler c) args s) = 0"
    by (simp add: call_status)
  then show ?thesis
    using sdb_loop_end [of ext input s] by (simp add: call_status)
qed

theorem only_quit_or_end_of_input_ends_loop_witness:
  "fst (call toy_ext Cmd_x (Some ''1 2'') (toy_state ''1 2'')) = 0
   \<and> fst (call toy_ext Cmd_si (Some ''-5'') (toy_state ''-5'')) = 0
   \<and> fst (call toy_ext
        (handler \<lparr>name = ''info'', description = ''Print program state'', handler = Cmd_info\<rparr>)
        None (toy_state [])) = 0
   \<and> fst (sdb_loop toy_ext [''si 2''] (toy_state [])) = []
   \<and> line_read (snd (sdb_loop toy_ext [''si 2''] (toy_state []))) = None
   \<and> (\<exists>pre ws. [''si 2'', ''q'', ''c''] = pre @ [''q'', ''c''] \<and> space_words ''q'' = ''q'' # ws)"
proof -
  note T = only_quit_or_end_of_input_ends_loop
  have info: "\<lparr>name = ''info'', description = ''Print program state'', handler = Cmd_info\<rparr>
      \<in> set cmd_table"
    by (simp add: cmd_table_def)
  have a: "fst (call toy_ext Cmd_x (Some ''1 2'') (toy_state ''1 2'')) = 0"
    by (rule T [of Cmd_x toy_ext "Some ''1 2''" "toy_state ''1 2''", THEN conjunct1, rule_format]) simp
  have b: "fst (call toy_ext Cmd_si (Some ''-5'') (toy_state ''-5'')) = 0"
    by (rule T [of Cmd_si toy_ext "Some ''-5''" "toy_state ''-5''", THEN conjunct1, rule_format]) simp
  have c: "fst (call toy_ext
        (handler \<lparr>name = ''info'', description = ''Print program state'', handler = Cmd_info\<rparr>)
        None (toy_state [])) = 0"
    by (rule T [of Cmd_c toy_ext None "toy_state []", THEN conjunct2, THEN conjunct1,
          rule_format, OF info]) simp
  have d: "fst (sdb_loop toy_ext [''si 2''] (toy_state [])) = []
      \<and> line_read (snd (sdb_loop toy_ext [''si 2''] (toy_state []))) = None"
  proof -
    define r where "r = fst (sdb_loop toy_ext [''si 2''] (toy_state []))"
    have "(r = [] \<and> line_read (snd (sdb_loop toy_ext [''si 2''] (toy_state []))) = None)
        \<or> (\<exists>pre str ws. [''si 2''] = pre @ str # r \<and> space_words str = ''q'' # ws)"
      unfolding r_def
      by (rule T [of Cmd_c toy_ext None "toy_state []" "[''si 2'']", THEN conjunct2, THEN conjunct2])
    moreover have False if "[''si 2''] = pre @ str # r" "space_words str = ''q'' # ws" for pre str ws
    proof -
      have "str \<in> set (pre @ str # r)" by simp
      then have "str \<in> set [''si 2'']" unfolding that(1) [symmetric] .
      then have "str = ''si 2''" by simp
      with that(2) show False by (simp add: space_words_def)
    qed
    ultimately show ?thesis
      unfolding r_def by blast
  qed
  have e: "\<exists>pre ws. [''si 2'', ''q'', ''c''] = pre @ [''q'', ''c''] \<and> space_words ''q'' = ''q'' # ws"
  proof -
    have "(fst (sdb_loop toy_ext [''si 2'', ''q'', ''c''] (toy_state [])) = []
        \<and> line_read (snd (sdb_loop toy_ext [''si 2'', ''q'', ''c''] (toy_state []))) = None)
      \<or> (\<exists>pre str ws. [''si 2'', ''q'', ''c'']
              = pre @ str # fst (sdb_loop toy_ext [''si 2'', ''q'', ''c''] (toy_state []))
            \<and> space_words str = ''q'' # ws)"
      by (rule T [of Cmd_c toy_ext None "toy_state []" "[''si 2'', ''q'', ''c'']",
            THEN conjunct2, THEN conjunct2])
    then obtain pre str ws where p: "[''si 2'', ''q'', ''c''] = pre @ [str, ''c'']"
      and q: "space_words str = ''q'' # ws"
      unfolding toy_session_rest by auto
    from p have "[''si 2'', ''q''] @ [''c''] = (pre @ [str]) @ [''c'']"
      by simp
    then have "[''si 2'', ''q''] = pre @ [str]"
      by (simp only: append_same_eq)
    then have "[''si 2''] @ [''q''] = pre @ [str]"
      by simp
    then have "str = ''q''"
      by (simp only: append1_eq_conv)
    with p q show ?thesis by auto
  qed
  from a b c d e show ?thesis by simp
qed

section \<open>Unknown commands\<close>

lemma sdb_loop_unknown:
  assumes "space_words str = w # ws" and "find (\<lambda>c. w = name c) cmd_table = None"
  shows "sdb_loop ext (str # rest) s
    = sdb_loop ext rest (printf (unknown_command w) (before_lookup ext str s))"
  using assms by (simp add: sdb_loop_Cons sdb_line_word lookup_loop_unknown)

lemma tab_word: "space_words (''foo'' @ [CHR 0x09] @ ''bar'') = [''foo'' @ [CHR 0x09] @ ''bar'']"
  by (simp add: space_words_def)

text \<open>
  Claim C4, as the code has it. The command word of a line is its first word delimited
  by spaces (the delimiter string of \<^verbatim>\<open>strtok\<close> is \<^verbatim>\<open>" "\<close>; a tab is a character of a
  word like any other). When that word is the name of no table entry, the iteration
  prints \<^verbatim>\<open>Unknown command '<word>'\<close> and nothing else, calls no handler (beside the
  fetch of the line, its entry in the history and, under \<^verbatim>\<open>CONFIG_DEVICE\<close>, the device
  hook, the diagnostic is the only event), and the loop goes on: its next action is to
  fetch a line.
\<close>

theorem unknown_command_reported:
  "space_words str = w # ws \<and> w \<notin> name ` set cmd_table \<longrightarrow>
     sdb_loop ext (str # rest) s
       = sdb_loop ext rest (printf (unknown_command w) (before_lookup ext str s))
     \<and> new_events s (printf (unknown_command w) (before_lookup ext str s))
         = Readline prompt # Add_history str
           # (if CONFIG_DEVICE ext then [Ev_sdl_clear_event_queue] else [])
           @ [Printf (''Unknown command '' @ quote @ w @ quote @ nl)]
     \<and> (\<exists>es. new_events (printf (unknown_command w) (before_lookup ext str s))
               (snd (sdb_loop ext rest (printf (unknown_command w) (before_lookup ext str s))))
             = Readline prompt # es)"
proof
  assume a: "space_words str = w # ws \<and> w \<notin> name ` set cmd_table"
  then have w: "space_words str = w # ws" and n: "find (\<lambda>c. w = name c) cmd_table = None"
    by (simp_all add: find_absent)
  have ne: "str \<noteq> []" using space_words_nonempty [OF w] .
  define s' where "s' = printf (unknown_command w) (before_lookup ext str s)"
  have "trace s' = trace s @ (Readline prompt # Add_history str
           # (if CONFIG_DEVICE ext then [Ev_sdl_clear_event_queue] else [])
           @ [Printf (''Unknown command '' @ quote @ w @ quote @ nl)])"
    using ne by (simp add: s'_def before_lookup_fields unknown_command_def)
  then have ev: "new_events s s' = Readline prompt # Add_history str
           # (if CONFIG_DEVICE ext then [Ev_sdl_clear_event_queue] else [])
           @ [Printf (''Unknown command '' @ quote @ w @ quote @ nl)]"
    by (rule new_events_append)
  obtain es where "trace (snd (sdb_loop ext rest s')) = trace s' @ Readline prompt # es"
    using sdb_loop_first_event [of ext rest s'] by blast
  then have "new_events s' (snd (sdb_loop ext rest s')) = Readline prompt # es"
    by (rule new_events_append)
  then have nx: "\<exists>es. new_events s' (snd (sdb_loop ext rest s')) = Readline prompt # es"
    by blast
  show "sdb_loop ext (str # rest) s
       = sdb_loop ext rest (printf (unknown_command w) (before_lookup ext str s))
     \<and> new_events s (printf (unknown_command w) (before_lookup ext str s))
         = Readline prompt # Add_history str
           # (if CONFIG_DEVICE ext then [Ev_sdl_clear_event_queue] else [])
           @ [Printf (''Unknown command '' @ quote @ w @ quote @ nl)]
     \<and> (\<exists>es. new_events (printf (unknown_command w) (before_lookup ext str s))
               (snd (sdb_loop ext rest (printf (unknown_command w) (before_lookup ext str s))))
             = Readline prompt # es)"
    using sdb_loop_unknown [OF w n, of ext rest s] ev nx unfolding s'_def by simp
qed

theorem unknown_command_reported_witness:
  "new_events (toy_state []) (snd (sdb_loop toy_ext [''foo bar''] (toy_state [])))
     = [Readline prompt, Add_history ''foo bar'',
        Printf (''Unknown command '' @ quote @ ''foo'' @ quote @ nl), Readline prompt]
   \<and> fst (sdb_loop toy_ext [''foo bar''] (toy_state [])) = []"
proof -
  have w: "space_words ''foo bar'' = [''foo'', ''bar'']"
    by (simp add: space_words_def)
  have n: "''foo'' \<notin> name ` set cmd_table"
    by (simp add: cmd_table_def)
  note T = unknown_command_reported [of "''foo bar''" "''foo''" "[''bar'']" toy_ext "[]" "toy_state []",
      rule_format, OF conjI, OF w n]
  have c: "\<not> CONFIG_DEVICE toy_ext"
    by (simp add: toy_ext_def)
  define s' where "s' = printf (unknown_command ''foo'') (before_lookup toy_ext ''foo bar'' (toy_state []))"
  have l: "sdb_loop toy_ext [''foo bar''] (toy_state []) = sdb_loop toy_ext [] s'"
    using T [THEN conjunct1] by (simp add: s'_def)
  have e: "new_events (toy_state []) s'
      = [Readline prompt, Add_history ''foo bar'', Printf (''Unknown command '' @ quote @ ''foo'' @ quote @ nl)]"
    using T [THEN conjunct2, THEN conjunct1] c by (simp add: s'_def)
  have t0: "trace (toy_state []) = []"
    by (simp add: toy_state_def sdb_initial_def)
  from e have "trace s' = [Readline prompt, Add_history ''foo bar'',
      Printf (''Unknown command '' @ quote @ ''foo'' @ quote @ nl)]"
    by (simp add: new_events_def t0)
  then show ?thesis
    by (simp add: l sdb_loop_Nil new_events_def t0)
qed

text \<open>
  The claim as stated, for the first word delimited by whitespace, fails on a line with
  a tab: the first whitespace-delimited word of \<^verbatim>\<open>foo<TAB>bar\<close> is \<^verbatim>\<open>foo\<close>, no command has
  that name, and the diagnostic names the whole line, not \<^verbatim>\<open>foo\<close>.
\<close>

theorem unknown_command_reported_counterexample:
  "hd (whitespace_words (''foo'' @ [CHR 0x09] @ ''bar'')) = ''foo''
   \<and> ''foo'' \<notin> name ` set cmd_table
   \<and> filter is_printf
        (new_events (toy_state []) (snd (sdb_loop toy_ext [''foo'' @ [CHR 0x09] @ ''bar''] (toy_state []))))
      = [Printf (''Unknown command '' @ quote @ ''foo'' @ [CHR 0x09] @ ''bar'' @ quote @ nl)]
   \<and> ''Unknown command '' @ quote @ ''foo'' @ [CHR 0x09] @ ''bar'' @ quote @ nl
      \<noteq> ''Unknown command '' @ quote @ ''foo'' @ quote @ nl"
proof -
  have n: "find (\<lambda>c. ''foo'' @ [CHR 0x09] @ ''bar'' = name c) cmd_table = None"
    by (simp add: cmd_table_def)
  have t0: "trace (toy_state []) = []"
    by (simp add: toy_state_def sdb_initial_def)
  have c: "\<not> CONFIG_DEVICE toy_ext"
    by (simp add: toy_ext_def)
  have "filter is_printf
        (new_events (toy_state []) (snd (sdb_loop toy_ext [''foo'' @ [CHR 0x09] @ ''bar''] (toy_state []))))
      = [Printf (''Unknown command '' @ quote @ ''foo'' @ [CHR 0x09] @ ''bar'' @ quote @ nl)]"
    unfolding sdb_loop_unknown [OF tab_word n]
    using c by (simp add: sdb_loop_Nil new_events_def t0 before_lookup_fields unknown_command_def)
  moreover have "hd (whitespace_words (''foo'' @ [CHR 0x09] @ ''bar'')) = ''foo''"
    by (simp add: whitespace_words_def isspace_def)
  moreover have "''foo'' \<notin> name ` set cmd_table"
    by (simp add: cmd_table_def)
  ultimately show ?thesis
    by (simp add: quote_def nl_def)
qed

section \<open>Blank lines and the absent argument\<close>

lemma words_by_Nil_iff: "words_by P acc s = [] \<longleftrightarrow> acc = [] \<and> (\<forall>c \<in> set s. P c)"
  by (induction s arbitrary: acc) auto

lemma space_words_Nil_iff: "space_words str = [] \<longleftrightarrow> set str \<subseteq> {CHR '' ''}"
  by (auto simp: space_words_def words_by_Nil_iff)

lemma takeWhile_spaces:
  assumes "w \<noteq> []" and "CHR '' '' \<notin> set w"
  shows "takeWhile (\<lambda>c. c = CHR '' '') (replicate k (CHR '' '') @ w) = replicate k (CHR '' '')"
proof -
  have "hd w \<noteq> CHR '' ''" using assms by (cases w) auto
  then have "takeWhile (\<lambda>c. c = CHR '' '') w = []"
    using assms(1) by (cases w) auto
  then show ?thesis
    by (induction k) simp_all
qed

lemma dropWhile_spaces:
  assumes "w \<noteq> []" and "CHR '' '' \<notin> set w"
  shows "dropWhile (\<lambda>c. c = CHR '' '') (replicate k (CHR '' '') @ w) = w"
proof -
  have "hd w \<noteq> CHR '' ''" using assms by (cases w) auto
  then have "dropWhile (\<lambda>c. c = CHR '' '') w = w"
    using assms(1) by (cases w) auto
  then show ?thesis
    by (induction k) simp_all
qed

lemma space_words_single:
  assumes "w \<noteq> []" and "CHR '' '' \<notin> set w"
  shows "space_words (replicate k (CHR '' '') @ w) = [w]"
proof -
  have tw: "takeWhile (\<lambda>c. c \<noteq> CHR '' '') w = w"
    using assms(2) by (auto simp: takeWhile_eq_all_conv)
  have dw: "dropWhile (\<lambda>c. c \<noteq> CHR '' '') w = []"
    using assms(2) by auto
  have "space_words (replicate k (CHR '' '') @ w) = words_by (\<lambda>c. c = CHR '' '') [] w"
    unfolding space_words_def
    using words_by_skip [of "\<lambda>c. c = CHR '' ''" "replicate k (CHR '' '') @ w"]
    by (simp add: dropWhile_spaces [OF assms])
  also have "\<dots> = [w]"
    using words_by_acc [of "\<lambda>c. c = CHR '' ''" "[]" w] assms(1) by (simp add: tw dw)
  finally show ?thesis .
qed

lemma args_of_end:
  assumes "w \<noteq> []" and "CHR '' '' \<notin> set w"
  shows "args_of (replicate k (CHR '' '') @ w) w = None"
  by (simp add: args_of_def strspn_def takeWhile_spaces [OF assms])

lemma args_of_not_empty: "args_of str w \<noteq> Some []"
  by (simp add: args_of_def Let_def)


text \<open>
  Claim C6, as the code has it. A line that is empty or consists of space characters
  only has no command word: the iteration does nothing but fetch it (and enter it in the
  history when it is not empty); nothing is looked up, no handler is called, nothing is
  printed, the emulator is untouched, and the loop goes on with the next line. When the
  line ends with its command word \<open>w\<close> (whatever number of spaces comes before it), the
  parameter of the handler is \<^verbatim>\<open>NULL\<close>: the handler of the entry named \<open>w\<close> is called
  with \<open>None\<close>. The parameter is never the empty string. The lines without a command
  word are exactly those made of spaces only.
\<close>

theorem blank_line_skipped_null_argument:
  "(set str \<subseteq> {CHR '' ''} \<longrightarrow>
      sdb_loop ext (str # rest) s = sdb_loop ext rest ((fetched str s)\<lparr>strtok_save := []\<rparr>)
      \<and> new_events s ((fetched str s)\<lparr>strtok_save := []\<rparr>)
          = Readline prompt # (if str \<noteq> [] then [Add_history str] else [])
      \<and> machine ((fetched str s)\<lparr>strtok_save := []\<rparr>) = machine s)
   \<and> (\<forall>k w. w \<noteq> [] \<and> CHR '' '' \<notin> set w \<longrightarrow>
        space_words (replicate k (CHR '' '') @ w) = [w]
        \<and> args_of (replicate k (CHR '' '') @ w) w = None
        \<and> (\<forall>c. find (\<lambda>c. w = name c) cmd_table = Some c \<longrightarrow>
             (\<exists>es. new_events (before_lookup ext (replicate k (CHR '' '') @ w) s)
                     (snd (sdb_line ext (replicate k (CHR '' '') @ w)
                             (fetched (replicate k (CHR '' '') @ w) s)))
                   = Call (handler c) None # es)))
   \<and> args_of str v \<noteq> Some []
   \<and> (space_words str = [] \<longleftrightarrow> set str \<subseteq> {CHR '' ''})"
proof -
  have blank: "sdb_loop ext (str # rest) s = sdb_loop ext rest ((fetched str s)\<lparr>strtok_save := []\<rparr>)
      \<and> new_events s ((fetched str s)\<lparr>strtok_save := []\<rparr>)
          = Readline prompt # (if str \<noteq> [] then [Add_history str] else [])
      \<and> machine ((fetched str s)\<lparr>strtok_save := []\<rparr>) = machine s"
    if "set str \<subseteq> {CHR '' ''}"
  proof -
    have "space_words str = []" using that by (simp add: space_words_Nil_iff)
    then show ?thesis
      by (simp add: sdb_loop_blank new_events_def)
  qed
  have word: "space_words (replicate k (CHR '' '') @ w) = [w]
        \<and> args_of (replicate k (CHR '' '') @ w) w = None
        \<and> (\<forall>c. find (\<lambda>c. w = name c) cmd_table = Some c \<longrightarrow>
             (\<exists>es. new_events (before_lookup ext (replicate k (CHR '' '') @ w) s)
                     (snd (sdb_line ext (replicate k (CHR '' '') @ w)
                             (fetched (replicate k (CHR '' '') @ w) s)))
                   = Call (handler c) None # es))"
    if "w \<noteq> []" "CHR '' '' \<notin> set w" for k w
  proof -
    define l where "l = replicate k (CHR '' '') @ w"
    have sw: "space_words l = [w]"
      unfolding l_def using that by (rule space_words_single)
    have ar: "args_of l w = None"
      unfolding l_def using that by (rule args_of_end)
    have "\<exists>es. new_events (before_lookup ext l s) (snd (sdb_line ext l (fetched l s)))
        = Call (handler c) None # es"
      if f: "find (\<lambda>c. w = name c) cmd_table = Some c" for c
    proof -
      obtain es where "trace (snd (invoke ext (handler c) None (before_lookup ext l s)))
          = trace (before_lookup ext l s) @ Call (handler c) None # es"
        using invoke_trace [of ext "handler c" None "before_lookup ext l s"] by blast
      then have "new_events (before_lookup ext l s)
          (snd (invoke ext (handler c) None (before_lookup ext l s))) = Call (handler c) None # es"
        by (rule new_events_append)
      then show ?thesis
        by (simp add: sdb_line_word [OF sw] ar lookup_loop_found [OF f])
    qed
    with sw ar show ?thesis
      unfolding l_def by blast
  qed
  from blank word show ?thesis
    using args_of_not_empty [of str v] space_words_Nil_iff [of str] by blast
qed

theorem blank_line_skipped_null_argument_witness:
  "new_events (toy_state []) (snd (sdb_loop toy_ext [''   ''] (toy_state [])))
     = [Readline prompt, Add_history ''   '', Readline prompt]
   \<and> new_events (toy_state []) (snd (sdb_loop toy_ext [[]] (toy_state [])))
     = [Readline prompt, Readline prompt]
   \<and> args_of '' c'' ''c'' = None
   \<and> hd (new_events (before_lookup toy_ext '' c'' (toy_state []))
           (snd (sdb_line toy_ext '' c'' (fetched '' c'' (toy_state [])))))
     = Call Cmd_c None"
proof -
  note T = blank_line_skipped_null_argument
  have t0: "trace (toy_state []) = []"
    by (simp add: toy_state_def sdb_initial_def)
  have b3: "set ''   '' \<subseteq> {CHR '' ''}" and b0: "set [] \<subseteq> {CHR '' ''}"
    by simp_all
  have "new_events (toy_state []) (snd (sdb_loop toy_ext [''   ''] (toy_state [])))
     = [Readline prompt, Add_history ''   '', Readline prompt]"
    using T [of "''   ''" toy_ext "[]" "toy_state []", THEN conjunct1, rule_format, OF b3]
    by (simp add: sdb_loop_Nil new_events_def t0)
  moreover have "new_events (toy_state []) (snd (sdb_loop toy_ext [[]] (toy_state [])))
     = [Readline prompt, Readline prompt]"
    using T [of "[]" toy_ext "[]" "toy_state []", THEN conjunct1, rule_format, OF b0]
    by (simp add: sdb_loop_Nil new_events_def t0)
  moreover have w: "''c'' \<noteq> [] \<and> CHR '' '' \<notin> set ''c''"
    by simp
  have fc: "find (\<lambda>c. ''c'' = name c) cmd_table
      = Some \<lparr>name = ''c'', description = ''Continue the execution of the program'', handler = Cmd_c\<rparr>"
    by (simp add: cmd_table_def)
  note W = T [of "[]" toy_ext "[]" "toy_state []", THEN conjunct2, THEN conjunct1, rule_format,
      of "''c''" "Suc 0", OF w]
  have "args_of '' c'' ''c'' = None"
    using W [THEN conjunct2, THEN conjunct1] by simp
  moreover have "hd (new_events (before_lookup toy_ext '' c'' (toy_state []))
           (snd (sdb_line toy_ext '' c'' (fetched '' c'' (toy_state [])))))
     = Call Cmd_c None"
    using W [THEN conjunct2, THEN conjunct2, rule_format, OF fc] by auto
  ultimately show ?thesis by simp
qed

text \<open>
  The claim as stated, for every all-whitespace line, fails on a line of one tab: it is
  whitespace, it has no whitespace-delimited word, and yet it is not skipped: it is taken
  for a command word and a diagnostic is printed.
\<close>

theorem blank_line_skipped_null_argument_counterexample:
  "list_all isspace [CHR 0x09]
   \<and> whitespace_words [CHR 0x09] = []
   \<and> filter is_printf (new_events (toy_state []) (snd (sdb_loop toy_ext [[CHR 0x09]] (toy_state []))))
      = [Printf (''Unknown command '' @ quote @ [CHR 0x09] @ quote @ nl)]"
proof -
  have w: "space_words [CHR 0x09] = [[CHR 0x09]]"
    by (simp add: space_words_def)
  have n: "find (\<lambda>c. [CHR 0x09] = name c) cmd_table = None"
    by (simp add: cmd_table_def)
  have t0: "trace (toy_state []) = []"
    by (simp add: toy_state_def sdb_initial_def)
  have c: "\<not> CONFIG_DEVICE toy_ext"
    by (simp add: toy_ext_def)
  have "filter is_printf (new_events (toy_state []) (snd (sdb_loop toy_ext [[CHR 0x09]] (toy_state []))))
      = [Printf (''Unknown command '' @ quote @ [CHR 0x09] @ quote @ nl)]"
    unfolding sdb_loop_unknown [OF w n]
    using c by (simp add: sdb_loop_Nil new_events_def t0 before_lookup_fields unknown_command_def)
  then show ?thesis
    by (simp add: whitespace_words_def isspace_def)
qed

section \<open>The memory command\<close>

lemma cmd_x_words:
  "cmd_x ext args s =
     (case space_words (strtok_save s) of
        n # e # ws \<Rightarrow>
          (0, printf (''Byte at address '' @ fmt_p (guest_to_host ext 0x80000000) @ '': 0x''
                      @ fmt_0x 2 (unat (host_load8 ext (machine s) (guest_to_host ext 0x80000000))) @ nl)
               (emit (Ev_load8 (guest_to_host ext 0x80000000))
                 (emit (Ev_guest_to_host 0x80000000)
                   (printf (''N = '' @ n @ '', EXPR = '' @ e @ nl)
                     (s\<lparr>strtok_save := snd (strtok_r (snd (strtok_r (strtok_save s) '' '')) '' '')\<rparr>)))))
      | _ \<Rightarrow> (0, printf (''Usage: x <N> <EXPR>'' @ nl)
                 (s\<lparr>strtok_save := snd (strtok_r (snd (strtok_r (strtok_save s) '' '')) '' '')\<rparr>)))"
proof -
  define r1 where "r1 = snd (strtok_r (strtok_save s) '' '')"
  have 1: "fst (strtok_r (strtok_save s) '' '')
      = (case space_words (strtok_save s) of [] \<Rightarrow> None | w # ws \<Rightarrow> Some w)"
    and 2: "space_words r1 = tl (space_words (strtok_save s))"
    using strtok_r_words [of "strtok_save s"] by (simp_all add: r1_def)
  have 3: "fst (strtok_r r1 '' '') = (case space_words r1 of [] \<Rightarrow> None | w # ws \<Rightarrow> Some w)"
    using strtok_r_words [of r1] by simp
  show ?thesis
    unfolding cmd_x_def strtok_None_eq
    by (simp add: 1 3 2 r1_def [symmetric] Let_def split: list.splits)
qed

text \<open>
  Claim C7, as the code has it. The arguments of \<^verbatim>\<open>cmd_x\<close> are the words that follow the
  command word, separated by spaces (two calls of \<^verbatim>\<open>strtok(NULL, " ")\<close>). With fewer
  than two of them it prints the usage line and nothing else: no address is translated
  and no byte is read. With two or more, \<open>n\<close> and \<open>e\<close> first, it echoes \<open>n\<close> and \<open>e\<close>,
  translates the guest address \<^verbatim>\<open>0x80000000\<close>, reads one byte through the host pointer
  it got and prints the pointer and the byte; the address, the read and the byte do not
  depend on \<open>n\<close> and \<open>e\<close>. It returns 0 and leaves the emulator as it is.
\<close>

theorem cmd_x_reads_fixed_byte:
  "fst (cmd_x ext args s) = 0
   \<and> machine (snd (cmd_x ext args s)) = machine s
   \<and> (length (space_words (strtok_save s)) < 2 \<longrightarrow>
        new_events s (snd (cmd_x ext args s)) = [Printf (''Usage: x <N> <EXPR>'' @ nl)])
   \<and> (\<forall>n e ws. space_words (strtok_save s) = n # e # ws \<longrightarrow>
        new_events s (snd (cmd_x ext args s))
          = [Printf (''N = '' @ n @ '', EXPR = '' @ e @ nl),
             Ev_guest_to_host 0x80000000,
             Ev_load8 (guest_to_host ext 0x80000000),
             Printf (''Byte at address '' @ fmt_p (guest_to_host ext 0x80000000) @ '': 0x''
                     @ fmt_0x 2 (unat (host_load8 ext (machine s) (guest_to_host ext 0x80000000)))
                     @ nl)]
        \<and> filter is_memory_access (new_events s (snd (cmd_x ext args s)))
          = [Ev_guest_to_host 0x80000000, Ev_load8 (guest_to_host ext 0x80000000)])"
proof (cases "space_words (strtok_save s)")
  case Nil
  then show ?thesis
    by (simp add: cmd_x_words new_events_append)
next
  case one: (Cons n ws)
  show ?thesis
  proof (cases ws)
    case Nil
    with one show ?thesis
      by (simp add: cmd_x_words new_events_append)
  next
    case (Cons e ws')
    with one show ?thesis
      by (simp add: cmd_x_words new_events_append)
  qed
qed

theorem cmd_x_reads_fixed_byte_witness:
  "new_events (toy_state []) (snd (cmd_x toy_ext None (toy_state [])))
     = [Printf (''Usage: x <N> <EXPR>'' @ nl)]
   \<and> new_events (toy_state ''4'') (snd (cmd_x toy_ext (Some ''4'') (toy_state ''4'')))
     = [Printf (''Usage: x <N> <EXPR>'' @ nl)]
   \<and> filter is_memory_access
        (new_events (toy_state ''4 0x80000010'')
           (snd (cmd_x toy_ext (Some ''4 0x80000010'') (toy_state ''4 0x80000010''))))
     = [Ev_guest_to_host 0x80000000, Ev_load8 0x7f0000000000]
   \<and> filter is_memory_access
        (new_events (toy_state ''1 $pc'') (snd (cmd_x toy_ext (Some ''1 $pc'') (toy_state ''1 $pc''))))
     = [Ev_guest_to_host 0x80000000, Ev_load8 0x7f0000000000]"
proof -
  note T = cmd_x_reads_fixed_byte
  have w0: "length (space_words (strtok_save (toy_state []))) < 2"
    and w1: "length (space_words (strtok_save (toy_state ''4''))) < 2"
    and w2: "space_words (strtok_save (toy_state ''4 0x80000010'')) = [''4'', ''0x80000010'']"
    and w3: "space_words (strtok_save (toy_state ''1 $pc'')) = [''1'', ''$pc'']"
    by (simp_all add: toy_eval)
  have g: "guest_to_host toy_ext 0x80000000 = 0x7f0000000000"
    by (simp add: toy_ext_def)
  show ?thesis
    using T [of toy_ext None "toy_state []", THEN conjunct2, THEN conjunct2, THEN conjunct1,
        rule_format, OF w0]
      T [of toy_ext "Some ''4''" "toy_state ''4''", THEN conjunct2, THEN conjunct2, THEN conjunct1,
        rule_format, OF w1]
      T [of toy_ext "Some ''4 0x80000010''" "toy_state ''4 0x80000010''", THEN conjunct2,
        THEN conjunct2, THEN conjunct2, rule_format, OF w2, THEN conjunct2]
      T [of toy_ext "Some ''1 $pc''" "toy_state ''1 $pc''", THEN conjunct2,
        THEN conjunct2, THEN conjunct2, rule_format, OF w3, THEN conjunct2]
    by (simp add: g)
qed

text \<open>
  The claim as stated, for arguments separated by whitespace, fails where the whitespace
  is a tab. \<^verbatim>\<open>1<TAB>2\<close> is two whitespace-separated arguments, but one word for
  \<^verbatim>\<open>strtok\<close>: the usage line is printed and nothing is read. \<^verbatim>\<open><TAB> 1\<close> is one
  whitespace-separated argument, but two words for \<^verbatim>\<open>strtok\<close>: the byte is read.
\<close>

theorem cmd_x_reads_fixed_byte_counterexample:
  "whitespace_words (''1'' @ [CHR 0x09] @ ''2'') = [''1'', ''2'']
   \<and> new_events (toy_state (''1'' @ [CHR 0x09] @ ''2''))
        (snd (cmd_x toy_ext (Some (''1'' @ [CHR 0x09] @ ''2'')) (toy_state (''1'' @ [CHR 0x09] @ ''2''))))
      = [Printf (''Usage: x <N> <EXPR>'' @ nl)]
   \<and> whitespace_words ([CHR 0x09] @ '' 1'') = [''1'']
   \<and> filter is_memory_access
        (new_events (toy_state ([CHR 0x09] @ '' 1''))
          (snd (cmd_x toy_ext (Some ([CHR 0x09] @ '' 1'')) (toy_state ([CHR 0x09] @ '' 1'')))))
      = [Ev_guest_to_host 0x80000000, Ev_load8 0x7f0000000000]"
proof -
  have a: "space_words (strtok_save (toy_state (''1'' @ [CHR 0x09] @ ''2''))) = [''1'' @ [CHR 0x09] @ ''2'']"
    and b: "space_words (strtok_save (toy_state ([CHR 0x09] @ '' 1''))) = [[CHR 0x09], ''1'']"
    by (simp_all add: toy_eval)
  have t0: "\<And>r. trace (toy_state r) = []"
    by (simp add: toy_state_def sdb_initial_def)
  have g: "guest_to_host toy_ext 0x80000000 = 0x7f0000000000"
    by (simp add: toy_ext_def)
  show ?thesis
    using a b by (simp add: cmd_x_words new_events_def t0 g whitespace_words_def isspace_def)
qed

end
